theory Spec2Isabelle
  imports Complex_Main "HOL-Library.AList"
begin

section \<open>Numbers\<close>

text \<open>
  The library computes with JavaScript numbers. Coefficients, bounds and scalar denominators
  are taken from an ordered field \<open>'a\<close> with exact arithmetic (no rounding, no overflow): the
  rationals, which contain every finite double, or the reals. Exponents and step counts are
  integers.

  Division by zero and a negative power of zero do not throw in JavaScript; they produce
  \<open>Infinity\<close>, \<open>-Infinity\<close> or \<open>NaN\<close>. \<open>NonFinite\<close> stands for these three values and for any
  number computed from one of them: the model does not follow such a computation further, it
  only records that the call returned without throwing.
\<close>

datatype 'a number = Finite 'a | NonFinite

fun js_add :: "'a::linordered_field number \<Rightarrow> 'a number \<Rightarrow> 'a number" where
  "js_add (Finite a) (Finite b) = Finite (a + b)"
| "js_add _ _ = NonFinite"

fun js_mul :: "'a::linordered_field number \<Rightarrow> 'a number \<Rightarrow> 'a number" where
  "js_mul (Finite a) (Finite b) = Finite (a * b)"
| "js_mul _ _ = NonFinite"

fun js_div :: "'a::linordered_field number \<Rightarrow> 'a number \<Rightarrow> 'a number" where
  "js_div (Finite a) (Finite b) = (if b = 0 then NonFinite else Finite (a / b))"
| "js_div _ _ = NonFinite"

text \<open>\<open>Math.pow\<close> at an integer exponent; \<open>Math.pow(0, n)\<close> is \<open>Infinity\<close> for \<open>n < 0\<close>.\<close>

fun Math_pow :: "'a::linordered_field number \<Rightarrow> int \<Rightarrow> 'a number" where
  "Math_pow (Finite x) n = (if x = 0 \<and> n < 0 then NonFinite else Finite (x powi n))"
| "Math_pow NonFinite n = NonFinite"

section \<open>Errors\<close>

text \<open>
  The error kinds of the specification. The source throws plain \<open>Error\<close> objects at three
  places: \<open>MissingVariable\<close> is the throw of \<open>evaluateTerm\<close>, \<open>LogarithmicIntegral\<close> the throw of
  \<open>integrateTerm\<close>, \<open>UnsupportedIntegral\<close> the throw of \<open>integrateFraction\<close>. No statement of
  the source throws for \<open>DivisionByZero\<close> or \<open>UnsupportedExpansion\<close>. A function that can throw
  returns \<open>error + result\<close>, with \<open>Inl\<close> for the throw.
\<close>

datatype error =
  MissingVariable | DivisionByZero | LogarithmicIntegral | UnsupportedIntegral
  | UnsupportedExpansion

section \<open>Data model\<close>

text \<open>
  A term is the object \<open>{coeff, var?}\<close>. The optional field \<open>var\<close> is an object from variable
  names to exponents; its entries are kept in insertion order, as \<open>Object.entries\<close> and
  \<open>JSON.stringify\<close> read them, so it is an association list. \<open>None\<close> is the absent field.
  Variable names are ordinary names; JavaScript moves keys that are array indices to the
  front, which is not modelled. \<open>deepClone\<close> (a JSON round trip) is the identity on these
  values.
\<close>

type_synonym vars = "(string \<times> int) list"

record 'a Term =
  coeff :: 'a
  var :: "vars option"

record 'a Polynomial =
  terms :: "'a Term list"

text \<open>\<open>fraction.deno\<close> is a number or a polynomial; \<open>typeof fraction.deno === 'number'\<close> tells.\<close>

datatype 'a Denominator = Scalar 'a | Poly "'a Polynomial"

record 'a Fraction =
  numi :: "'a Polynomial"
  deno :: "'a Denominator"

type_synonym 'a bindings = "string \<rightharpoonup> 'a number"

definition createTerm :: "'a \<Rightarrow> vars \<Rightarrow> 'a Term" where
  "createTerm c vs = \<lparr>coeff = c, var = (if vs = [] then None else Some vs)\<rparr>"

definition hasSimpleDenominator :: "'a Fraction \<Rightarrow> bool" where
  "hasSimpleDenominator fraction = (case deno fraction of Scalar _ \<Rightarrow> True | Poly _ \<Rightarrow> False)"

text \<open>The entries a loop \<open>if (term.var) for (... of Object.entries(term.var))\<close> visits.\<close>

definition entries :: "vars option \<Rightarrow> vars" where
  "entries vo = (case vo of None \<Rightarrow> [] | Some vs \<Rightarrow> vs)"


section \<open>Greatest common divisor\<close>

text \<open>
  \<open>a % b\<close> for \<open>b \<noteq> 0\<close>: the remainder of the division truncated towards zero. It is exact
  on doubles, so the loop of \<open>gcd\<close> is Euclid's algorithm on rationals.
\<close>

definition trunc :: "rat \<Rightarrow> int" where
  "trunc x = (if 0 \<le> x then \<lfloor>x\<rfloor> else \<lceil>x\<rceil>)"

definition js_rem :: "rat \<Rightarrow> rat \<Rightarrow> rat" where
  "js_rem a b = a - b * of_int (trunc (a / b))"

text \<open>
  The denominator of a rational in lowest terms, and the measure of the loop of \<open>gcd\<close>: the
  second number, counted in units of the common denominator of the two.
\<close>

definition denom :: "rat \<Rightarrow> int" where
  "denom x = snd (quotient_of x)"

definition gcd_measure :: "rat \<times> rat \<Rightarrow> nat" where
  "gcd_measure p = nat \<lfloor>\<bar>snd p\<bar> * of_int (lcm (denom (fst p)) (denom (snd p)))\<rfloor>"

text \<open>
  The loop \<open>while (b) { [a, b] = [b, a % b]; }\<close> and its result \<open>a\<close>. That it ends is proved
  in the section on its termination, after the definitions.
\<close>

function gcd_loop :: "rat \<Rightarrow> rat \<Rightarrow> rat" where
  "gcd_loop a b = (if b = 0 then a else gcd_loop b (js_rem a b))"
  by pat_completeness auto

text \<open>\<open>gcd(a, b)\<close>: absolute values first, and \<open>a || 1\<close> at the end.\<close>

definition gcd_js :: "rat \<Rightarrow> rat \<Rightarrow> rat" where
  "gcd_js a b = (let r = gcd_loop \<bar>a\<bar> \<bar>b\<bar> in if r = 0 then 1 else r)"

section \<open>Evaluation\<close>

text \<open>
  \<open>evaluateTerm\<close>: the loop over the entries of \<open>term.var\<close>, with the running product;
  a variable without a binding throws.
\<close>

fun evaluateVars :: "'a::linordered_field number \<Rightarrow> vars \<Rightarrow> 'a bindings \<Rightarrow> error + 'a number" where
  "evaluateVars result [] values = Inr result"
| "evaluateVars result ((variable, pw) # rest) values =
     (case values variable of
        None \<Rightarrow> Inl MissingVariable
      | Some x \<Rightarrow> evaluateVars (js_mul result (Math_pow x pw)) rest values)"

definition evaluateTerm :: "'a::linordered_field Term \<Rightarrow> 'a bindings \<Rightarrow> error + 'a number" where
  "evaluateTerm term values = evaluateVars (Finite (coeff term)) (entries (var term)) values"

text \<open>\<open>evaluatePolynomial\<close>: the loop over the terms, with the running sum.\<close>

fun evaluateTerms :: "'a::linordered_field number \<Rightarrow> 'a Term list \<Rightarrow> 'a bindings \<Rightarrow> error + 'a number" where
  "evaluateTerms acc [] values = Inr acc"
| "evaluateTerms acc (term # rest) values =
     (case evaluateTerm term values of
        Inl e \<Rightarrow> Inl e
      | Inr v \<Rightarrow> evaluateTerms (js_add acc v) rest values)"

definition evaluatePolynomial :: "'a::linordered_field Polynomial \<Rightarrow> 'a bindings \<Rightarrow> error + 'a number" where
  "evaluatePolynomial polynomial values = evaluateTerms (Finite 0) (terms polynomial) values"

definition evaluateFraction :: "'a::linordered_field Fraction \<Rightarrow> 'a bindings \<Rightarrow> error + 'a number" where
  "evaluateFraction fraction values =
     (case evaluatePolynomial (numi fraction) values of
        Inl e \<Rightarrow> Inl e
      | Inr numeratorSum \<Rightarrow>
          (case deno fraction of
             Scalar d \<Rightarrow> Inr (js_div numeratorSum (Finite d))
           | Poly g \<Rightarrow>
               (case evaluatePolynomial g values of
                  Inl e \<Rightarrow> Inl e
                | Inr denominatorSum \<Rightarrow> Inr (js_div numeratorSum denominatorSum))))"

section \<open>Integration\<close>

text \<open>\<open>newTerm.var?.[indvar] ?? 0\<close>\<close>

definition powerOf :: "'a Term \<Rightarrow> string \<Rightarrow> int" where
  "powerOf term indvar = (case map_of (entries (var term)) indvar of None \<Rightarrow> 0 | Some n \<Rightarrow> n)"

definition integrateTerm :: "'a::linordered_field Term \<Rightarrow> string \<Rightarrow> error + 'a Term" where
  "integrateTerm term indvar =
     (let pw = powerOf term indvar in
      if pw = - 1 then Inl LogarithmicIntegral
      else Inr \<lparr>coeff = coeff term / of_int (pw + 1),
                var = Some (AList.update indvar (pw + 1) (entries (var term)))\<rparr>)"

section \<open>Differentiation\<close>

definition differentiateTerm :: "'a::linordered_field Term \<Rightarrow> string \<Rightarrow> 'a Term" where
  "differentiateTerm term indvar =
     (case map_of (entries (var term)) indvar of
        None \<Rightarrow> createTerm 0 []
      | Some pw \<Rightarrow>
          if pw = 1 then
            (let vs = AList.delete indvar (entries (var term)) in
             \<lparr>coeff = coeff term * of_int pw, var = (if vs = [] then None else Some vs)\<rparr>)
          else
            \<lparr>coeff = coeff term * of_int pw,
             var = Some (AList.update indvar (pw - 1) (entries (var term)))\<rparr>)"

definition differentiatePolynomial :: "'a::linordered_field Polynomial \<Rightarrow> string \<Rightarrow> 'a Polynomial" where
  "differentiatePolynomial polynomial indvar =
     \<lparr>terms = filter (\<lambda>term. coeff term \<noteq> 0)
               (map (\<lambda>term. differentiateTerm term indvar) (terms polynomial))\<rparr>"

section \<open>Polynomial arithmetic\<close>

definition addPolynomials :: "'a Polynomial \<Rightarrow> 'a Polynomial \<Rightarrow> 'a Polynomial" where
  "addPolynomials poly1 poly2 = \<lparr>terms = terms poly1 @ terms poly2\<rparr>"

definition subtractPolynomials :: "'a::linordered_field Polynomial \<Rightarrow> 'a Polynomial \<Rightarrow> 'a Polynomial" where
  "subtractPolynomials poly1 poly2 =
     addPolynomials poly1 \<lparr>terms = map (\<lambda>t. t\<lparr>coeff := - coeff t\<rparr>) (terms poly2)\<rparr>"

text \<open>
  \<open>multiplyTerms\<close>: the first loop copies the entries of \<open>term1.var\<close> into \<open>vars\<close>, the second
  adds the exponents of \<open>term2.var\<close>, \<open>vars[v] = (vars[v] || 0) + pow\<close>.
\<close>

definition copyVars :: "vars \<Rightarrow> vars" where
  "copyVars vs = fold (\<lambda>(v, pow) acc. AList.update v pow acc) vs []"

definition addVars :: "vars \<Rightarrow> vars \<Rightarrow> vars" where
  "addVars vs acc0 =
     fold (\<lambda>(v, pow) acc.
             AList.update v ((case map_of acc v of None \<Rightarrow> 0 | Some n \<Rightarrow> n) + pow) acc)
          vs acc0"

definition multiplyTerms :: "'a::linordered_field Term \<Rightarrow> 'a Term \<Rightarrow> 'a Term" where
  "multiplyTerms term1 term2 =
     (let vs = addVars (entries (var term2)) (copyVars (entries (var term1))) in
      \<lparr>coeff = coeff term1 * coeff term2, var = (if vs = [] then None else Some vs)\<rparr>)"

definition multiplyPolynomials :: "'a::linordered_field Polynomial \<Rightarrow> 'a Polynomial \<Rightarrow> 'a Polynomial" where
  "multiplyPolynomials poly1 poly2 =
     \<lparr>terms = concat (map (\<lambda>term1. map (\<lambda>term2. multiplyTerms term1 term2) (terms poly2))
                          (terms poly1))\<rparr>"

definition multiplyPolynomialByConstant :: "'a::linordered_field Polynomial \<Rightarrow> 'a \<Rightarrow> 'a Polynomial" where
  "multiplyPolynomialByConstant polynomial constant =
     \<lparr>terms = map (\<lambda>t. t\<lparr>coeff := coeff t * constant\<rparr>) (terms polynomial)\<rparr>"

definition differentiateFraction :: "'a::linordered_field Fraction \<Rightarrow> string \<Rightarrow> 'a Fraction" where
  "differentiateFraction fraction indvar =
     (case deno fraction of
        Scalar d \<Rightarrow> \<lparr>numi = differentiatePolynomial (numi fraction) indvar, deno = Scalar d\<rparr>
      | Poly g \<Rightarrow>
          (let f = numi fraction;
               fPrime = differentiatePolynomial f indvar;
               gPrime = differentiatePolynomial g indvar;
               fPrimeTimesG = multiplyPolynomials fPrime g;
               fTimesGPrime = multiplyPolynomials f gPrime;
               numerator = subtractPolynomials fPrimeTimesG fTimesGPrime;
               denominator = multiplyPolynomials g g
           in \<lparr>numi = numerator, deno = Poly denominator\<rparr>))"

section \<open>Simplification\<close>

text \<open>
  \<open>simplifyPolynomial\<close> collects the terms in a \<open>Map\<close>, which keeps its keys in the order of
  their first insertion. The key of a term is \<open>JSON.stringify(term.var)\<close>, or \<open>'constant'\<close>
  when the field is absent; two terms have the same key exactly when their \<open>var\<close> fields are
  equal, entry order included, so the field itself is the key here.
\<close>

type_synonym 'a termMap = "(vars option \<times> 'a Term) list"

definition addToMap :: "'a::linordered_field Term \<Rightarrow> 'a termMap \<Rightarrow> 'a termMap" where
  "addToMap term termMap =
     (let varKey = var term in
      case map_of termMap varKey of
        Some _ \<Rightarrow> AList.map_entry varKey (\<lambda>u. u\<lparr>coeff := coeff u + coeff term\<rparr>) termMap
      | None \<Rightarrow> AList.update varKey term termMap)"

text \<open>The total degree the comparator of the sort computes.\<close>

definition degree :: "'a Term \<Rightarrow> int" where
  "degree term = sum_list (map snd (entries (var term)))"

text \<open>
  \<open>Array.prototype.sort\<close> is stable, and the comparator \<open>degreeB - degreeA\<close> orders by
  descending degree: the result is the stable sort by the key \<open>- degree\<close>. The threshold of the
  filter is taken as \<open>1/10^10\<close>; the section on doubles has the double \<open>1e-10\<close> itself.
\<close>

definition simplifyPolynomial :: "'a::linordered_field Polynomial \<Rightarrow> 'a Polynomial" where
  "simplifyPolynomial polynomial =
     \<lparr>terms = sort_key (\<lambda>term. - degree term)
               (filter (\<lambda>term. \<bar>coeff term\<bar> > 1 / 10 ^ 10)
                  (map snd (fold addToMap (terms polynomial) [])))\<rparr>"

text \<open>
  \<open>simplifyFraction\<close>; \<open>coeffs.reduce((a, b) => gcd(a, b))\<close> has no initial value, so it
  starts from the first coefficient.
\<close>

definition simplifyFraction :: "rat Fraction \<Rightarrow> rat Fraction" where
  "simplifyFraction fraction =
     (let simplifiedNumi = simplifyPolynomial (numi fraction) in
      case deno fraction of
        Scalar d \<Rightarrow>
          (case map coeff (terms simplifiedNumi) of
             [] \<Rightarrow> \<lparr>numi = simplifiedNumi, deno = Scalar d\<rparr>
           | c # coeffs \<Rightarrow>
               (let numGCD = foldl gcd_js c coeffs;
                    denoGCD = gcd_js numGCD d
                in if denoGCD > 1
                   then \<lparr>numi = \<lparr>terms = map (\<lambda>t. t\<lparr>coeff := coeff t / denoGCD\<rparr>)
                                             (terms simplifiedNumi)\<rparr>,
                         deno = Scalar (d / denoGCD)\<rparr>
                   else \<lparr>numi = simplifiedNumi, deno = Scalar d\<rparr>))
      | Poly g \<Rightarrow> \<lparr>numi = simplifiedNumi, deno = Poly (simplifyPolynomial g)\<rparr>)"

section \<open>Simplification on doubles\<close>

text \<open>
  The definitions above add coefficients exactly. On doubles a sum can leave the finite
  numbers, and \<open>deepClone\<close>, a JSON round trip, is no longer the identity: it writes \<open>null\<close>
  for \<open>Infinity\<close>, \<open>-Infinity\<close> and \<open>NaN\<close>. This section follows \<open>simplifyPolynomial\<close> with the values
  a \<open>coeff\<close> field can hold at run time: a double, or \<open>null\<close> (\<open>None\<close>). A finite double is its
  rational value and finite sums are not rounded, but a sum whose magnitude reaches
  \<open>2^1024 - 2^970\<close>, where rounding to nearest overflows, is \<open>Infinity\<close> or \<open>-Infinity\<close>.
\<close>

datatype double = Num rat | PosInfinity | NegInfinity | NaN

type_synonym coefficient = "double option"

definition overflowBound :: rat where
  "overflowBound = 2 ^ 1024 - 2 ^ 970"

text \<open>The literal \<open>1e-10\<close> is the double \<open>7737125245533627 / 2^86\<close>, a little above \<open>1/10^10\<close>.\<close>

definition epsilonDouble :: rat where
  "epsilonDouble = 7737125245533627 / 2 ^ 86"

text \<open>\<open>null\<close> counts as \<open>0\<close> in \<open>+=\<close> and in \<open>Math.abs\<close>.\<close>

fun toNumber :: "coefficient \<Rightarrow> double" where
  "toNumber None = Num 0"
| "toNumber (Some d) = d"

fun plusDouble :: "double \<Rightarrow> double \<Rightarrow> double" where
  "plusDouble (Num a) (Num b) =
     (if overflowBound \<le> a + b then PosInfinity
      else if a + b \<le> - overflowBound then NegInfinity
      else Num (a + b))"
| "plusDouble NaN _ = NaN"
| "plusDouble _ NaN = NaN"
| "plusDouble PosInfinity NegInfinity = NaN"
| "plusDouble NegInfinity PosInfinity = NaN"
| "plusDouble PosInfinity _ = PosInfinity"
| "plusDouble _ PosInfinity = PosInfinity"
| "plusDouble NegInfinity _ = NegInfinity"
| "plusDouble _ NegInfinity = NegInfinity"

text \<open>\<open>termMap.get(varKey).coeff += term.coeff\<close>\<close>

definition plusCoefficient :: "coefficient \<Rightarrow> coefficient \<Rightarrow> coefficient" where
  "plusCoefficient c1 c2 = Some (plusDouble (toNumber c1) (toNumber c2))"

text \<open>What \<open>JSON.parse(JSON.stringify(...))\<close> makes of a \<open>coeff\<close> field.\<close>

fun jsonNumber :: "coefficient \<Rightarrow> coefficient" where
  "jsonNumber (Some (Num a)) = Some (Num a)"
| "jsonNumber _ = None"

text \<open>\<open>Math.abs(term.coeff) > 1e-10\<close>\<close>

definition keptCoefficient :: "coefficient \<Rightarrow> bool" where
  "keptCoefficient c =
     (case toNumber c of
        Num a \<Rightarrow> \<bar>a\<bar> > epsilonDouble
      | PosInfinity \<Rightarrow> True
      | NegInfinity \<Rightarrow> True
      | NaN \<Rightarrow> False)"

text \<open>
  \<open>simplifyPolynomial\<close> once more, with the addition, the clone of a coefficient and the test
  of the filter as parameters.
\<close>

definition addToMapWith ::
  "('c \<Rightarrow> 'c \<Rightarrow> 'c) \<Rightarrow> ('c \<Rightarrow> 'c) \<Rightarrow> 'c Term \<Rightarrow> 'c termMap \<Rightarrow> 'c termMap" where
  "addToMapWith plusOp cloneOp term termMap =
     (let varKey = var term in
      case map_of termMap varKey of
        Some _ \<Rightarrow>
          AList.map_entry varKey (\<lambda>u. u\<lparr>coeff := plusOp (coeff u) (coeff term)\<rparr>) termMap
      | None \<Rightarrow> AList.update varKey (term\<lparr>coeff := cloneOp (coeff term)\<rparr>) termMap)"

definition simplifyPolynomialWith ::
  "('c \<Rightarrow> 'c \<Rightarrow> 'c) \<Rightarrow> ('c \<Rightarrow> 'c) \<Rightarrow> ('c \<Rightarrow> bool) \<Rightarrow> 'c Polynomial \<Rightarrow> 'c Polynomial" where
  "simplifyPolynomialWith plusOp cloneOp keepOp polynomial =
     \<lparr>terms = sort_key (\<lambda>term. - degree term)
               (filter (\<lambda>term. keepOp (coeff term))
                  (map snd (fold (addToMapWith plusOp cloneOp) (terms polynomial) [])))\<rparr>"

definition simplifyPolynomial_doubles :: "coefficient Polynomial \<Rightarrow> coefficient Polynomial" where
  "simplifyPolynomial_doubles polynomial =
     simplifyPolynomialWith plusCoefficient jsonNumber keptCoefficient polynomial"

text \<open>A coefficient that is a finite number.\<close>

definition finiteCoefficient :: "coefficient \<Rightarrow> bool" where
  "finiteCoefficient c = (case c of Some (Num a) \<Rightarrow> True | _ \<Rightarrow> False)"

section \<open>Expansion\<close>

text \<open>\<open>expandFractions\<close> has no \<open>throw\<close>: every call returns.\<close>

definition expandFractions :: "rat Fraction \<Rightarrow> rat Fraction \<Rightarrow> error + rat Fraction" where
  "expandFractions frac1 frac2 =
     (let expandedNumi = multiplyPolynomials (numi frac1) (numi frac2);
          newDeno =
            (case (deno frac1, deno frac2) of
               (Scalar d1, Scalar d2) \<Rightarrow> Scalar (d1 * d2)
             | (Scalar d1, Poly g2) \<Rightarrow> Poly (multiplyPolynomialByConstant g2 d1)
             | (Poly g1, Scalar d2) \<Rightarrow> Poly (multiplyPolynomialByConstant g1 d2)
             | (Poly g1, Poly g2) \<Rightarrow> Poly (multiplyPolynomials g1 g2))
      in Inr (simplifyFraction \<lparr>numi = expandedNumi, deno = newDeno\<rparr>))"

section \<open>Numerical integration\<close>

text \<open>
  The loop \<open>for (let i = 0; i <= numSteps; i++)\<close> of \<open>numericalIntegrateFraction\<close>, from the
  counter \<open>i\<close> and the running sum; a throw of \<open>evaluateFraction\<close> ends it.
\<close>

function simpsonLoop ::
  "'a::linordered_field Fraction \<Rightarrow> 'a \<Rightarrow> 'a number \<Rightarrow> string \<Rightarrow> int \<Rightarrow> int \<Rightarrow> 'a number
     \<Rightarrow> error + 'a number" where
  "simpsonLoop fraction lower h indvar numSteps i acc =
     (if i \<le> numSteps then
        (let x = js_add (Finite lower) (js_mul (Finite (of_int i)) h) in
         case evaluateFraction fraction [indvar \<mapsto> x] of
           Inl e \<Rightarrow> Inl e
         | Inr v \<Rightarrow>
             simpsonLoop fraction lower h indvar numSteps (i + 1)
               (if i = 0 \<or> i = numSteps then js_add acc v
                else if i mod 2 = 1 then js_add acc (js_mul (Finite 4) v)
                else js_add acc (js_mul (Finite 2) v)))
      else Inr acc)"
  by pat_completeness auto
termination
  by (relation "measure (\<lambda>(fraction, lower, h, indvar, numSteps, i, acc). nat (numSteps + 1 - i))")
    auto

declare simpsonLoop.simps [simp del]

text \<open>
  The result is the constant fraction \<open>{numi: {terms: [createTerm(result)]}, deno: 1}\<close>;
  \<open>NonFinite\<close> when \<open>result\<close> is \<open>NonFinite\<close>. The step count is given; a caller that leaves
  it out gets \<open>1000\<close>.
\<close>

definition numericalIntegrateFraction ::
  "'a::linordered_field Fraction \<Rightarrow> 'a \<Rightarrow> 'a \<Rightarrow> string \<Rightarrow> int \<Rightarrow> error + 'a Fraction number" where
  "numericalIntegrateFraction fraction lower upper indvar numSteps0 =
     (let numSteps = (if numSteps0 mod 2 \<noteq> 0 then numSteps0 + 1 else numSteps0);
          h = js_div (Finite (upper - lower)) (Finite (of_int numSteps))
      in case simpsonLoop fraction lower h indvar numSteps 0 (Finite 0) of
           Inl e \<Rightarrow> Inl e
         | Inr s \<Rightarrow>
             (case js_mul (js_div h (Finite 3)) s of
                Finite result \<Rightarrow>
                  Inr (Finite \<lparr>numi = \<lparr>terms = [createTerm result []]\<rparr>, deno = Scalar 1\<rparr>)
              | NonFinite \<Rightarrow> Inr NonFinite))"

section \<open>Simpson's rule, as the specification words it\<close>

text \<open>
  An odd step count is incremented by one; the weight of the sample \<open>i\<close> is \<open>1\<close> at \<open>i = 0\<close> and
  at \<open>i = steps\<close>, \<open>4\<close> at odd \<open>i\<close> and \<open>2\<close> at the other, even, \<open>i\<close>.
\<close>

definition evenSteps :: "int \<Rightarrow> int" where
  "evenSteps numSteps = (if odd numSteps then numSteps + 1 else numSteps)"

definition simpsonWeight :: "int \<Rightarrow> int \<Rightarrow> 'a::linordered_field" where
  "simpsonWeight steps i = (if i = 0 \<or> i = steps then 1 else if odd i then 4 else 2)"

section \<open>Terms that evaluate to a number\<close>

text \<open>
  An entry of a term is bound when the binding supplies a number for its variable and the
  power is a number of exact arithmetic: the number is not zero or the exponent is not
  negative. A term is evaluable when all its entries are bound and, as in every JavaScript
  object, each of its variables has one entry.
\<close>

definition bound :: "'a::linordered_field bindings \<Rightarrow> string \<times> int \<Rightarrow> bool" where
  "bound values e =
     (case values (fst e) of Some (Finite x) \<Rightarrow> x \<noteq> 0 \<or> 0 \<le> snd e | _ \<Rightarrow> False)"

definition evaluable :: "'a::linordered_field bindings \<Rightarrow> 'a Term \<Rightarrow> bool" where
  "evaluable values term =
     (distinct (map fst (entries (var term))) \<and> list_all (bound values) (entries (var term)))"

text \<open>The value of a term in exact arithmetic.\<close>

definition valueOf :: "'a::linordered_field bindings \<Rightarrow> string \<Rightarrow> 'a" where
  "valueOf values v = (case values v of Some (Finite x) \<Rightarrow> x | _ \<Rightarrow> 0)"

definition monomialValue :: "'a::linordered_field bindings \<Rightarrow> vars \<Rightarrow> 'a" where
  "monomialValue values vs = prod_list (map (\<lambda>(v, n). valueOf values v powi n) vs)"

definition termValue :: "'a::linordered_field bindings \<Rightarrow> 'a Term \<Rightarrow> 'a" where
  "termValue values term = coeff term * monomialValue values (entries (var term))"

section \<open>Predicates on terms and term maps\<close>

text \<open>
  The normalization invariant of the data model: no variable is present with exponent \<open>0\<close>.
  The data model also asks for exponents that are not negative.
\<close>

definition normalized :: "'a Term \<Rightarrow> bool" where
  "normalized term = list_all (\<lambda>(v, n). n \<noteq> 0) (entries (var term))"

definition nonnegative :: "'a Term \<Rightarrow> bool" where
  "nonnegative term = list_all (\<lambda>(v, n). 0 \<le> n) (entries (var term))"

text \<open>
  The \<open>Map\<close> of \<open>simplifyPolynomial\<close> holds each key once, and under the key of a term a
  term with that \<open>var\<close> field.
\<close>

definition keyed :: "'a termMap \<Rightarrow> bool" where
  "keyed m = (distinct (map fst m) \<and> list_all (\<lambda>(k, t). var t = k) m)"

section \<open>Termination of the gcd loop\<close>

lemma denom_pos: "0 < denom x"
  unfolding denom_def by (cases "quotient_of x") (simp add: quotient_of_denom_pos)

lemma times_denom_Ints: "x * of_int (denom x) \<in> \<int>"
proof -
  obtain n d where q: "quotient_of x = (n, d)" by (cases "quotient_of x")
  then have "x = of_int n / of_int d" "0 < d"
    by (simp_all add: quotient_of_div quotient_of_denom_pos)
  then have "x * of_int (denom x) = of_int n" using q by (simp add: denom_def)
  then show ?thesis by simp
qed

lemma times_multiple_Ints:
  assumes "denom x dvd L"
  shows "x * of_int L \<in> \<int>"
proof -
  from assms obtain k where k: "L = denom x * k" by (auto simp: dvd_def)
  obtain z where z: "x * of_int (denom x) = of_int z"
    using times_denom_Ints [of x] by (auto elim: Ints_cases)
  have "x * of_int L = (x * of_int (denom x)) * of_int k" by (simp add: k)
  also have "\<dots> = of_int (z * k)" by (simp add: z)
  finally show ?thesis by (simp only: Ints_of_int)
qed

lemma denom_dvd_if_Ints:
  assumes "x * of_int L \<in> \<int>"
  shows "denom x dvd L"
proof -
  obtain n d where q: "quotient_of x = (n, d)" by (cases "quotient_of x")
  then have x: "x = of_int n / of_int d" and d: "0 < d" and c: "coprime n d"
    by (simp_all add: quotient_of_div quotient_of_denom_pos quotient_of_coprime)
  have "(of_int (n * L) :: rat) / of_int d \<in> \<int>" using assms x by simp
  then have "d dvd n * L" using d by (simp only: of_int_div_of_int_in_Ints_iff) simp
  then have "d dvd L" using c by (simp add: coprime_commute coprime_dvd_mult_right_iff)
  then show ?thesis using q by (simp add: denom_def)
qed

lemma abs_frac_trunc: "\<bar>q - of_int (trunc q)\<bar> < 1"
  unfolding trunc_def by (auto; linarith)

lemma abs_js_rem_less:
  assumes "b \<noteq> 0"
  shows "\<bar>js_rem a b\<bar> < \<bar>b\<bar>"
proof -
  have "js_rem a b = b * (a / b - of_int (trunc (a / b)))"
    using assms by (simp add: js_rem_def algebra_simps)
  then have "\<bar>js_rem a b\<bar> = \<bar>b\<bar> * \<bar>a / b - of_int (trunc (a / b))\<bar>"
    by (simp add: abs_mult)
  also have "\<dots> < \<bar>b\<bar> * 1"
    using assms abs_frac_trunc [of "a / b"] by (intro mult_strict_left_mono) simp_all
  finally show ?thesis by simp
qed

text \<open>
  Each round of the loop keeps both numbers multiples of one fraction \<open>1 / L\<close> and makes the
  second one smaller, so the loop ends.
\<close>

lemma gcd_measure_decreases:
  assumes "b \<noteq> 0"
  shows "gcd_measure (b, js_rem a b) < gcd_measure (a, b)"
proof -
  define L where "L = lcm (denom a) (denom b)"
  define r where "r = js_rem a b"
  define L' where "L' = lcm (denom b) (denom r)"
  have Lpos: "0 < L" unfolding L_def using denom_pos [of a] denom_pos [of b]
    by (simp add: lcm_pos_int less_le)
  have aL: "a * of_int L \<in> \<int>" and bL: "b * of_int L \<in> \<int>"
    unfolding L_def by (rule times_multiple_Ints, simp)+
  have "r * of_int L = a * of_int L - (b * of_int L) * of_int (trunc (a / b))"
    by (simp add: r_def js_rem_def algebra_simps)
  then have "r * of_int L \<in> \<int>" using aL bL by (simp del: of_int_mult)
  then have "denom r dvd L" by (rule denom_dvd_if_Ints)
  moreover have "denom b dvd L" by (simp add: L_def)
  ultimately have "L' dvd L" by (simp add: L'_def)
  then have L'le: "L' \<le> L" using Lpos by (simp add: zdvd_imp_le)
  have L'pos: "0 \<le> L'" by (simp add: L'_def)
  have "\<bar>r\<bar> * of_int L' \<le> \<bar>r\<bar> * of_int L"
    using L'le by (intro mult_left_mono) simp_all
  also have "\<dots> < \<bar>b\<bar> * of_int L"
    using abs_js_rem_less [OF assms, of a] Lpos by (simp add: r_def)
  finally have lt: "\<bar>r\<bar> * of_int L' < \<bar>b\<bar> * of_int L" .
  have "\<bar>b\<bar> * of_int L = \<bar>b * of_int L\<bar>" using Lpos by (simp add: abs_mult)
  also have "\<dots> \<in> \<int>" using bL by (auto elim!: Ints_cases simp del: of_int_mult)
  finally obtain z where z: "\<bar>b\<bar> * of_int L = of_int z" by (auto elim: Ints_cases)
  have flt: "\<lfloor>\<bar>r\<bar> * of_int L'\<rfloor> < z" using lt z by (simp add: floor_less_iff)
  have f0: "0 \<le> \<lfloor>\<bar>r\<bar> * of_int L'\<rfloor>" using L'pos by simp
  from f0 flt have "nat \<lfloor>\<bar>r\<bar> * of_int L'\<rfloor> < nat z" by linarith
  then show ?thesis
    unfolding gcd_measure_def using z by (simp add: L_def L'_def r_def)
qed

termination gcd_loop
  by (relation "measure gcd_measure") (simp_all add: gcd_measure_decreases)

declare gcd_loop.simps [simp del]

section \<open>Facts about association lists\<close>

lemma update_fresh: "k \<notin> fst ` set m \<Longrightarrow> AList.update k v m = m @ [(k, v)]"
  by (induction m) auto

lemma map_of_None_iff: "map_of m k = None \<longleftrightarrow> k \<notin> fst ` set m"
  by (simp add: map_of_eq_None_iff)

lemma list_all_update:
  "P (k, v) \<Longrightarrow> list_all P al \<Longrightarrow> list_all P (AList.update k v al)"
  by (induction al) auto

lemma list_all_delete: "list_all P al \<Longrightarrow> list_all P (AList.delete k al)"
  by (induction al) auto

lemma list_all_map_of: "list_all P al \<Longrightarrow> map_of al k = Some v \<Longrightarrow> P (k, v)"
  by (induction al) (auto split: if_splits)

lemma entries_var: "entries (if vs = [] then None else Some vs) = vs"
  by (simp add: entries_def)

section \<open>The power rule of integration\<close>



section \<open>Simplifying a fraction whose numerator vanishes\<close>

lemma simplifyPolynomial_zero_constant:
  "simplifyPolynomial \<lparr>terms = [createTerm (0::rat) []]\<rparr> = \<lparr>terms = []\<rparr>"
  by (simp add: simplifyPolynomial_def addToMap_def createTerm_def)

text \<open>
  Claim C9. When the denominator is a scalar and the numerator simplifies to the empty term
  sequence, \<open>simplifyFraction\<close> returns the empty numerator with the scalar denominator as it
  was: no gcd is taken.
\<close>

theorem simplifyFraction_zero_numerator:
  "deno fraction = Scalar d \<Longrightarrow> terms (simplifyPolynomial (numi fraction)) = [] \<Longrightarrow>
   simplifyFraction fraction = \<lparr>numi = \<lparr>terms = []\<rparr>, deno = Scalar d\<rparr>"
  by (simp add: simplifyFraction_def Let_def)

text \<open>\<open>0/3\<close> keeps the denominator \<open>3\<close>.\<close>

theorem simplifyFraction_zero_numerator_witness:
  "simplifyFraction \<lparr>numi = \<lparr>terms = [createTerm 0 []]\<rparr>, deno = Scalar 3\<rparr> =
     \<lparr>numi = \<lparr>terms = []\<rparr>, deno = Scalar 3\<rparr>"
  using simplifyFraction_zero_numerator
    [of "\<lparr>numi = \<lparr>terms = [createTerm 0 []]\<rparr>, deno = Scalar 3\<rparr>" 3]
  by (simp add: simplifyPolynomial_zero_constant)

section \<open>The quotient rule\<close>

text \<open>
  Claim C1, as the code has it. For a fraction with the polynomial denominator \<open>g\<close> and the
  numerator \<open>f\<close>, \<open>differentiateFraction\<close> returns the numerator
  \<open>subtractPolynomials(multiplyPolynomials(f', g), multiplyPolynomials(f, g'))\<close> as it is, like
  terms not merged, and the denominator \<open>multiplyPolynomials(g, g)\<close>.
\<close>

theorem differentiateFraction_quotient_rule:
  "deno fraction = Poly g \<Longrightarrow>
   differentiateFraction fraction v =
     \<lparr>numi = subtractPolynomials
               (multiplyPolynomials (differentiatePolynomial (numi fraction) v) g)
               (multiplyPolynomials (numi fraction) (differentiatePolynomial g v)),
      deno = Poly (multiplyPolynomials g g)\<rparr>"
  by (simp add: differentiateFraction_def Let_def)

text \<open>The derivative of \<open>x/(x+1)\<close> is \<open>(x + 1 - x)/(x\<^sup>2 + x + x + 1)\<close>.\<close>

theorem differentiateFraction_quotient_rule_witness:
  "differentiateFraction
     \<lparr>numi = \<lparr>terms = [createTerm (1::rat) [(''x'', 1)]]\<rparr>,
      deno = Poly \<lparr>terms = [createTerm 1 [(''x'', 1)], createTerm 1 []]\<rparr>\<rparr> ''x'' =
   \<lparr>numi = \<lparr>terms = [createTerm 1 [(''x'', 1)], createTerm 1 [], createTerm (- 1) [(''x'', 1)]]\<rparr>,
    deno = Poly \<lparr>terms = [createTerm 1 [(''x'', 2)], createTerm 1 [(''x'', 1)],
                           createTerm 1 [(''x'', 1)], createTerm 1 []]\<rparr>\<rparr>"
  using differentiateFraction_quotient_rule
    [of "\<lparr>numi = \<lparr>terms = [createTerm (1::rat) [(''x'', 1)]]\<rparr>,
          deno = Poly \<lparr>terms = [createTerm 1 [(''x'', 1)], createTerm 1 []]\<rparr>\<rparr>"
        "\<lparr>terms = [createTerm 1 [(''x'', 1)], createTerm 1 []]\<rparr>" "''x''"]
  by (simp add: differentiatePolynomial_def differentiateTerm_def multiplyPolynomials_def
      multiplyTerms_def subtractPolynomials_def addPolynomials_def createTerm_def entries_def
      copyVars_def addVars_def)

text \<open>
  The claim as the specification words it asks for the simplified numerator. For \<open>x/(x+1)\<close>
  the simplified numerator is the single term \<open>1\<close>; the function returns three terms.
\<close>

theorem differentiateFraction_numerator_not_simplified:
  "numi (differentiateFraction
     \<lparr>numi = \<lparr>terms = [createTerm (1::rat) [(''x'', 1)]]\<rparr>,
      deno = Poly \<lparr>terms = [createTerm 1 [(''x'', 1)], createTerm 1 []]\<rparr>\<rparr> ''x'')
   \<noteq> simplifyPolynomial
       (subtractPolynomials
          (multiplyPolynomials
             (differentiatePolynomial \<lparr>terms = [createTerm (1::rat) [(''x'', 1)]]\<rparr> ''x'')
             \<lparr>terms = [createTerm 1 [(''x'', 1)], createTerm 1 []]\<rparr>)
          (multiplyPolynomials
             \<lparr>terms = [createTerm (1::rat) [(''x'', 1)]]\<rparr>
             (differentiatePolynomial \<lparr>terms = [createTerm 1 [(''x'', 1)], createTerm 1 []]\<rparr> ''x'')))"
  by code_simp

section \<open>Evaluating at a zero of the denominator\<close>

text \<open>The only error an evaluation raises is the missing variable.\<close>

lemma evaluateVars_error: "evaluateVars r vs vals = Inl e \<Longrightarrow> e = MissingVariable"
  by (induction r vs vals rule: evaluateVars.induct) (auto split: option.splits)

lemma evaluateTerms_error: "evaluateTerms a ts vals = Inl e \<Longrightarrow> e = MissingVariable"
  by (induction a ts vals rule: evaluateTerms.induct)
     (auto split: sum.splits simp: evaluateTerm_def dest: evaluateVars_error)

lemma evaluateFraction_error: "evaluateFraction fr vals = Inl e \<Longrightarrow> e = MissingVariable"
  by (auto simp: evaluateFraction_def evaluatePolynomial_def split: sum.splits Denominator.splits
      dest: evaluateTerms_error)

text \<open>
  Claim C2 asks for the error \<open>DivisionByZero\<close> when the denominator evaluates to zero. The
  division \<open>numeratorSum / denominatorSum\<close> does not throw: \<open>x/(x-2)\<close> at \<open>x = 2\<close> returns
  \<open>2/0\<close>, the number \<open>Infinity\<close>.
\<close>

theorem evaluateFraction_at_pole:
  "evaluateFraction
     \<lparr>numi = \<lparr>terms = [createTerm (1::rat) [(''x'', 1)]]\<rparr>,
      deno = Poly \<lparr>terms = [createTerm 1 [(''x'', 1)], createTerm (- 2) []]\<rparr>\<rparr>
     [''x'' \<mapsto> Finite 2] = Inr NonFinite"
  by (simp add: evaluateFraction_def evaluatePolynomial_def evaluateTerm_def createTerm_def entries_def)

section \<open>Expanding a product of two fractions\<close>

lemma expandFractions_difference_of_squares:
  "expandFractions
     \<lparr>numi = \<lparr>terms = [createTerm 1 [(''x'', 1)], createTerm 1 []]\<rparr>, deno = Scalar 1\<rparr>
     \<lparr>numi = \<lparr>terms = [createTerm 1 [(''x'', 1)], createTerm (- 1) []]\<rparr>, deno = Scalar 1\<rparr> =
   Inr \<lparr>numi = \<lparr>terms = [createTerm 1 [(''x'', 2)], createTerm (- 1) []]\<rparr>, deno = Scalar 1\<rparr>"
  by code_simp

text \<open>
  Claim C3, as the code has it. \<open>expandFractions\<close> returns for every pair of fractions: the
  simplified fraction of the cross product of the numerators over the product of the
  denominators, which is the product of the two scalars, the polynomial denominator scaled by
  the other's scalar, or the product of the two polynomial denominators. With both
  denominators the scalar \<open>1\<close> the new denominator is \<open>1\<close>, and \<open>(x+1)(x-1)\<close> gives the two terms
  \<open>x\<^sup>2\<close> and \<open>-1\<close>.
\<close>

theorem expandFractions_all_denominators:
  "(\<exists>r. expandFractions frac1 frac2 = Inr r) \<and>
   (deno frac1 = Scalar 1 \<and> deno frac2 = Scalar 1 \<longrightarrow>
      expandFractions frac1 frac2 =
        Inr (simplifyFraction \<lparr>numi = multiplyPolynomials (numi frac1) (numi frac2),
                               deno = Scalar 1\<rparr>)) \<and>
   (deno frac1 = Scalar d1 \<and> deno frac2 = Scalar d2 \<longrightarrow>
      expandFractions frac1 frac2 =
        Inr (simplifyFraction \<lparr>numi = multiplyPolynomials (numi frac1) (numi frac2),
                               deno = Scalar (d1 * d2)\<rparr>)) \<and>
   (deno frac1 = Scalar d1 \<and> deno frac2 = Poly g2 \<longrightarrow>
      expandFractions frac1 frac2 =
        Inr (simplifyFraction \<lparr>numi = multiplyPolynomials (numi frac1) (numi frac2),
                               deno = Poly (multiplyPolynomialByConstant g2 d1)\<rparr>)) \<and>
   (deno frac1 = Poly g1 \<and> deno frac2 = Scalar d2 \<longrightarrow>
      expandFractions frac1 frac2 =
        Inr (simplifyFraction \<lparr>numi = multiplyPolynomials (numi frac1) (numi frac2),
                               deno = Poly (multiplyPolynomialByConstant g1 d2)\<rparr>)) \<and>
   (deno frac1 = Poly g1 \<and> deno frac2 = Poly g2 \<longrightarrow>
      expandFractions frac1 frac2 =
        Inr (simplifyFraction \<lparr>numi = multiplyPolynomials (numi frac1) (numi frac2),
                               deno = Poly (multiplyPolynomials g1 g2)\<rparr>)) \<and>
   expandFractions
     \<lparr>numi = \<lparr>terms = [createTerm 1 [(''x'', 1)], createTerm 1 []]\<rparr>, deno = Scalar 1\<rparr>
     \<lparr>numi = \<lparr>terms = [createTerm 1 [(''x'', 1)], createTerm (- 1) []]\<rparr>, deno = Scalar 1\<rparr> =
   Inr \<lparr>numi = \<lparr>terms = [createTerm 1 [(''x'', 2)], createTerm (- 1) []]\<rparr>, deno = Scalar 1\<rparr>"
  using expandFractions_difference_of_squares by (simp add: expandFractions_def Let_def)

text \<open>One pair of fractions for each shape of the two denominators.\<close>

theorem expandFractions_all_denominators_witness:
  "expandFractions
     \<lparr>numi = \<lparr>terms = [createTerm 1 [(''x'', 1)], createTerm 1 []]\<rparr>, deno = Scalar 1\<rparr>
     \<lparr>numi = \<lparr>terms = [createTerm 1 [(''x'', 1)], createTerm (- 1) []]\<rparr>, deno = Scalar 1\<rparr> =
   Inr (simplifyFraction
     \<lparr>numi = \<lparr>terms = [createTerm 1 [(''x'', 2)], createTerm (- 1) [(''x'', 1)],
                           createTerm 1 [(''x'', 1)], createTerm (- 1) []]\<rparr>,
      deno = Scalar 1\<rparr>) \<and>
   expandFractions
     \<lparr>numi = \<lparr>terms = [createTerm 1 [(''x'', 1)]]\<rparr>, deno = Scalar 2\<rparr>
     \<lparr>numi = \<lparr>terms = [createTerm 1 []]\<rparr>, deno = Poly \<lparr>terms = [createTerm 1 [(''x'', 1)]]\<rparr>\<rparr> =
   Inr (simplifyFraction
     \<lparr>numi = \<lparr>terms = [createTerm 1 [(''x'', 1)]]\<rparr>,
      deno = Poly \<lparr>terms = [createTerm 2 [(''x'', 1)]]\<rparr>\<rparr>) \<and>
   expandFractions
     \<lparr>numi = \<lparr>terms = [createTerm 1 []]\<rparr>, deno = Poly \<lparr>terms = [createTerm 1 [(''x'', 1)]]\<rparr>\<rparr>
     \<lparr>numi = \<lparr>terms = [createTerm 1 [(''x'', 1)]]\<rparr>, deno = Scalar 2\<rparr> =
   Inr (simplifyFraction
     \<lparr>numi = \<lparr>terms = [createTerm 1 [(''x'', 1)]]\<rparr>,
      deno = Poly \<lparr>terms = [createTerm 2 [(''x'', 1)]]\<rparr>\<rparr>) \<and>
   expandFractions
     \<lparr>numi = \<lparr>terms = [createTerm 1 []]\<rparr>, deno = Poly \<lparr>terms = [createTerm 1 [(''x'', 1)]]\<rparr>\<rparr>
     \<lparr>numi = \<lparr>terms = [createTerm 1 []]\<rparr>, deno = Poly \<lparr>terms = [createTerm 1 [(''x'', 1)]]\<rparr>\<rparr> =
   Inr (simplifyFraction
     \<lparr>numi = \<lparr>terms = [createTerm 1 []]\<rparr>,
      deno = Poly \<lparr>terms = [createTerm 1 [(''x'', 2)]]\<rparr>\<rparr>)"
  using
    expandFractions_all_denominators
      [of "\<lparr>numi = \<lparr>terms = [createTerm 1 [(''x'', 1)], createTerm 1 []]\<rparr>, deno = Scalar 1\<rparr>"
          "\<lparr>numi = \<lparr>terms = [createTerm 1 [(''x'', 1)], createTerm (- 1) []]\<rparr>, deno = Scalar 1\<rparr>"
          1 1]
    expandFractions_all_denominators
      [of "\<lparr>numi = \<lparr>terms = [createTerm 1 [(''x'', 1)]]\<rparr>, deno = Scalar 2\<rparr>"
          "\<lparr>numi = \<lparr>terms = [createTerm 1 []]\<rparr>, deno = Poly \<lparr>terms = [createTerm 1 [(''x'', 1)]]\<rparr>\<rparr>"
          2 _ "\<lparr>terms = [createTerm 1 [(''x'', 1)]]\<rparr>"]
    expandFractions_all_denominators
      [of "\<lparr>numi = \<lparr>terms = [createTerm 1 []]\<rparr>, deno = Poly \<lparr>terms = [createTerm 1 [(''x'', 1)]]\<rparr>\<rparr>"
          "\<lparr>numi = \<lparr>terms = [createTerm 1 [(''x'', 1)]]\<rparr>, deno = Scalar 2\<rparr>"
          _ 2 _ "\<lparr>terms = [createTerm 1 [(''x'', 1)]]\<rparr>"]
    expandFractions_all_denominators
      [of "\<lparr>numi = \<lparr>terms = [createTerm 1 []]\<rparr>, deno = Poly \<lparr>terms = [createTerm 1 [(''x'', 1)]]\<rparr>\<rparr>"
          "\<lparr>numi = \<lparr>terms = [createTerm 1 []]\<rparr>, deno = Poly \<lparr>terms = [createTerm 1 [(''x'', 1)]]\<rparr>\<rparr>"
          _ _ "\<lparr>terms = [createTerm 1 [(''x'', 1)]]\<rparr>" "\<lparr>terms = [createTerm 1 [(''x'', 1)]]\<rparr>"]
  by (simp add: multiplyPolynomials_def multiplyPolynomialByConstant_def multiplyTerms_def
      createTerm_def entries_def copyVars_def addVars_def)

text \<open>
  The claim as the specification words it asks for the error \<open>UnsupportedExpansion\<close> when a
  denominator is not the scalar \<open>1\<close>. \<open>(x/2)(x+1)\<close> is expanded to \<open>(x\<^sup>2 + x)/2\<close>.
\<close>

theorem expandFractions_scalar_counterexample:
  "expandFractions
     \<lparr>numi = \<lparr>terms = [createTerm 1 [(''x'', 1)]]\<rparr>, deno = Scalar 2\<rparr>
     \<lparr>numi = \<lparr>terms = [createTerm 1 [(''x'', 1)], createTerm 1 []]\<rparr>, deno = Scalar 1\<rparr> =
   Inr \<lparr>numi = \<lparr>terms = [createTerm 1 [(''x'', 2)], createTerm 1 [(''x'', 1)]]\<rparr>, deno = Scalar 2\<rparr>"
  by code_simp

section \<open>The gcd of the source and the gcd of the integers\<close>

lemma js_rem_of_int:
  assumes "0 \<le> a" "0 < b"
  shows "js_rem (of_int a) (of_int b) = of_int (a mod b)"
proof -
  have "(0::rat) \<le> of_int a / of_int b" using assms by simp
  then have "trunc (of_int a / of_int b) = a div b"
    by (simp add: trunc_def floor_divide_of_int_eq)
  then have "js_rem (of_int a) (of_int b) = of_int (a - b * (a div b))"
    by (simp add: js_rem_def)
  then show ?thesis by (simp add: minus_mult_div_eq_mod)
qed

lemma gcd_loop_of_int:
  "0 \<le> a \<Longrightarrow> 0 \<le> b \<Longrightarrow> gcd_loop (of_int a) (of_int b) = of_int (gcd a b)"
proof (induction "nat b" arbitrary: a b rule: less_induct)
  case less
  show ?case
  proof (cases "b = 0")
    case True
    with less.prems show ?thesis by (simp add: gcd_loop.simps)
  next
    case False
    with less.prems have b: "0 < b" by simp
    have m: "0 \<le> a mod b" "a mod b < b" using b by simp_all
    have "gcd_loop (of_int a) (of_int b) = gcd_loop (of_int b) (of_int (a mod b))"
      using b less.prems by (subst gcd_loop.simps) (simp add: js_rem_of_int)
    also have "\<dots> = of_int (gcd b (a mod b))"
      using m b less.prems by (intro less.hyps) simp_all
    also have "gcd b (a mod b) = gcd a b" by (simp add: gcd_red_int [of a b])
    finally show ?thesis .
  qed
qed

text \<open>On integers \<open>gcd\<close> is the greatest common divisor, but for \<open>gcd(0, 0) = 1\<close>.\<close>

lemma gcd_js_of_int:
  "gcd_js (of_int a) (of_int b) = (if a = 0 \<and> b = 0 then 1 else of_int (gcd a b))"
proof -
  have "gcd_loop \<bar>of_int a\<bar> \<bar>of_int b\<bar> = gcd_loop (of_int \<bar>a\<bar>) (of_int \<bar>b\<bar>)"
    by simp
  also have "\<dots> = of_int (gcd \<bar>a\<bar> \<bar>b\<bar>)" by (rule gcd_loop_of_int) simp_all
  finally have "gcd_loop \<bar>of_int a\<bar> \<bar>of_int b\<bar> = of_int (gcd a b)" by simp
  then show ?thesis by (simp add: gcd_js_def)
qed

text \<open>
  The \<open>reduce\<close> over integer coefficients, the first of them not zero, followed by the gcd with
  the denominator: the greatest common divisor of all of them.
\<close>

lemma foldl_gcd_js_of_int:
  "c \<noteq> 0 \<Longrightarrow>
   \<exists>k. foldl gcd_js (of_int c) (map of_int cs) = of_int k \<and> k \<noteq> 0 \<and>
       gcd k d = gcd (Gcd (set (c # cs))) d"
proof (induction cs arbitrary: c)
  case Nil
  then show ?case by (intro exI [of _ c]) simp
next
  case (Cons x xs)
  from Cons.prems have nz: "gcd c x \<noteq> 0" by simp
  from Cons.IH [OF nz] obtain k where
    k: "foldl gcd_js (of_int (gcd c x)) (map of_int xs) = of_int k" "k \<noteq> 0"
       "gcd k d = gcd (Gcd (set (gcd c x # xs))) d" by blast
  have "Gcd (set (gcd c x # xs)) = Gcd (set (c # x # xs))"
    by (simp add: gcd.assoc)
  with k Cons.prems show ?case
    by (intro exI [of _ k]) (simp add: gcd_js_of_int)
qed

lemma gcd_js_coefficients_of_int:
  assumes "c \<noteq> 0"
  shows "gcd_js (foldl gcd_js (of_int c) (map of_int cs)) (of_int d) =
         of_int (gcd (Gcd (set (c # cs))) d)"
proof -
  from foldl_gcd_js_of_int [OF assms, of cs d] obtain k where
    k: "foldl gcd_js (of_int c) (map of_int cs) = of_int k" "k \<noteq> 0"
       "gcd k d = gcd (Gcd (set (c # cs))) d" by blast
  then show ?thesis by (simp add: gcd_js_of_int)
qed

section \<open>Reducing a fraction by the gcd\<close>

lemma simplifyFraction_six_nine_three:
  "simplifyFraction
     \<lparr>numi = \<lparr>terms = [createTerm 6 [(''x'', 2)], createTerm 9 [(''x'', 1)]]\<rparr>, deno = Scalar 3\<rparr> =
   \<lparr>numi = \<lparr>terms = [createTerm 2 [(''x'', 2)], createTerm 3 [(''x'', 1)]]\<rparr>, deno = Scalar 1\<rparr>"
  by code_simp

lemma simplifyPolynomial_six_nine:
  "simplifyPolynomial \<lparr>terms = [createTerm (6::rat) [(''x'', 2)], createTerm 9 [(''x'', 1)]]\<rparr>
   = \<lparr>terms = [createTerm 6 [(''x'', 2)], createTerm 9 [(''x'', 1)]]\<rparr>"
  by code_simp

text \<open>
  Claim C7. For a fraction with the scalar denominator \<open>d\<close> whose simplified numerator has
  the coefficients \<open>c, cs\<close>, \<open>simplifyFraction\<close> takes \<open>g = gcd(gcd of the coefficients, d)\<close> and,
  when \<open>g > 1\<close>, divides every coefficient and \<open>d\<close> by \<open>g\<close>; otherwise it keeps both. The gcd
  is Euclid's algorithm on absolute values with \<open>gcd(0, 0) = 1\<close>: on integers it is the
  greatest common divisor, and over integer coefficients \<open>g\<close> is the greatest common
  divisor of all coefficients and the denominator. \<open>(6x\<^sup>2 + 9x)/3\<close> becomes \<open>(2x\<^sup>2 + 3x)/1\<close>.
\<close>

theorem simplifyFraction_gcd_reduction:
  "(deno fraction = Scalar d \<and>
    map coeff (terms (simplifyPolynomial (numi fraction))) = c # cs \<longrightarrow>
      simplifyFraction fraction =
        (if 1 < gcd_js (foldl gcd_js c cs) d
         then \<lparr>numi = \<lparr>terms = map (\<lambda>t. t\<lparr>coeff := coeff t / gcd_js (foldl gcd_js c cs) d\<rparr>)
                                   (terms (simplifyPolynomial (numi fraction)))\<rparr>,
               deno = Scalar (d / gcd_js (foldl gcd_js c cs) d)\<rparr>
         else \<lparr>numi = simplifyPolynomial (numi fraction), deno = Scalar d\<rparr>)) \<and>
   gcd_js (of_int a) (of_int b) = (if a = 0 \<and> b = 0 then 1 else of_int (gcd a b)) \<and>
   (k \<noteq> 0 \<longrightarrow>
      gcd_js (foldl gcd_js (of_int k) (map of_int ks)) (of_int n) =
        of_int (gcd (Gcd (set (k # ks))) n)) \<and>
   simplifyFraction
     \<lparr>numi = \<lparr>terms = [createTerm 6 [(''x'', 2)], createTerm 9 [(''x'', 1)]]\<rparr>, deno = Scalar 3\<rparr> =
   \<lparr>numi = \<lparr>terms = [createTerm 2 [(''x'', 2)], createTerm 3 [(''x'', 1)]]\<rparr>, deno = Scalar 1\<rparr>"
  using simplifyFraction_six_nine_three gcd_js_of_int [of a b]
    gcd_js_coefficients_of_int [of k ks n]
  by (simp add: simplifyFraction_def Let_def)

text \<open>For \<open>(6x\<^sup>2 + 9x)/3\<close> the gcd is \<open>3\<close> and everything is divided by it.\<close>

theorem simplifyFraction_gcd_reduction_witness:
  "gcd_js (foldl gcd_js 6 [9]) 3 = 3 \<and>
   simplifyFraction
     \<lparr>numi = \<lparr>terms = [createTerm 6 [(''x'', 2)], createTerm 9 [(''x'', 1)]]\<rparr>, deno = Scalar 3\<rparr> =
   \<lparr>numi = \<lparr>terms = [createTerm (6 / 3) [(''x'', 2)], createTerm (9 / 3) [(''x'', 1)]]\<rparr>,
    deno = Scalar (3 / 3)\<rparr>"
proof -
  have "(6::int) \<noteq> 0" by simp
  from mp [OF simplifyFraction_gcd_reduction [THEN conjunct2, THEN conjunct2, THEN conjunct1] this,
      of "[9]" 3]
  have g: "gcd_js (foldl gcd_js 6 [9]) 3 = 3" by simp
  have "deno \<lparr>numi = \<lparr>terms = [createTerm 6 [(''x'', 2)], createTerm 9 [(''x'', 1)]]\<rparr>,
               deno = Scalar (3::rat)\<rparr> = Scalar 3 \<and>
        map coeff (terms (simplifyPolynomial (numi
          \<lparr>numi = \<lparr>terms = [createTerm 6 [(''x'', 2)], createTerm 9 [(''x'', 1)]]\<rparr>,
           deno = Scalar (3::rat)\<rparr>))) = 6 # [9]"
    by (simp add: simplifyPolynomial_six_nine) (simp add: createTerm_def)
  from mp [OF simplifyFraction_gcd_reduction [THEN conjunct1] this]
  have "simplifyFraction
     \<lparr>numi = \<lparr>terms = [createTerm 6 [(''x'', 2)], createTerm 9 [(''x'', 1)]]\<rparr>, deno = Scalar 3\<rparr> =
     \<lparr>numi = \<lparr>terms = map (\<lambda>t. t\<lparr>coeff := coeff t / 3\<rparr>)
                 [createTerm 6 [(''x'', 2)], createTerm 9 [(''x'', 1)]]\<rparr>,
      deno = Scalar (3 / 3)\<rparr>"
    by (simp only: g) (simp add: simplifyPolynomial_six_nine)
  then show ?thesis using g by (simp add: createTerm_def)
qed

section \<open>Idempotence of simplification\<close>

lemma values_keys:
  "list_all (\<lambda>(k, t). var t = k) m \<Longrightarrow> map var (map snd m) = map fst m"
  by (induction m) auto

lemma keyed_values: "keyed m \<Longrightarrow> distinct (map var (map snd m))"
  by (simp only: keyed_def values_keys)

lemma distinct_map_sort_key: "distinct (map g (sort_key f xs)) = distinct (map g xs)"
  by (simp add: distinct_map)

text \<open>The exact definitions are the parametrised ones at exact addition and the identity.\<close>

lemma coeff_update_same: "t\<lparr>coeff := coeff t\<rparr> = t"
  by (cases t) simp

lemma addToMap_exact: "addToMap = addToMapWith (+) (\<lambda>c. c)"
  by (simp add: fun_eq_iff addToMap_def addToMapWith_def Let_def coeff_update_same
      split: option.splits)

lemma simplifyPolynomial_exact:
  "simplifyPolynomial p = simplifyPolynomialWith (+) (\<lambda>c. c) (\<lambda>c. \<bar>c\<bar> > 1 / 10 ^ 10) p"
  by (simp add: simplifyPolynomial_def simplifyPolynomialWith_def addToMap_exact)

text \<open>The map holds each key once, so the keys of a simplified polynomial are distinct.\<close>

lemma list_all_map_entry_keyed:
  "list_all (\<lambda>(k, t). var t = k) m \<Longrightarrow>
   list_all (\<lambda>(k, t). var t = k) (AList.map_entry k' (\<lambda>u. u\<lparr>coeff := g u\<rparr>) m)"
  by (induction m) auto

lemma keyed_addToMapWith: "keyed m \<Longrightarrow> keyed (addToMapWith plusOp cloneOp t m)"
  unfolding keyed_def addToMapWith_def Let_def
  by (auto split: option.splits simp: distinct_update distinct_map_entry list_all_map_entry_keyed
      map_of_None_iff update_fresh)

lemma keyed_foldWith: "keyed m \<Longrightarrow> keyed (fold (addToMapWith plusOp cloneOp) ts m)"
  by (induction ts arbitrary: m) (simp_all add: keyed_addToMapWith)

lemma fold_addToMapWith_fresh:
  "distinct (map var ts) \<Longrightarrow> var ` set ts \<inter> fst ` set m = {} \<Longrightarrow>
   fold (addToMapWith plusOp cloneOp) ts m =
   m @ map (\<lambda>t. (var t, t\<lparr>coeff := cloneOp (coeff t)\<rparr>)) ts"
proof (induction ts arbitrary: m)
  case Nil
  then show ?case by simp
next
  case (Cons t ts)
  let ?e = "(var t, t\<lparr>coeff := cloneOp (coeff t)\<rparr>)"
  from Cons.prems have fresh: "var t \<notin> fst ` set m" by auto
  then have step: "addToMapWith plusOp cloneOp t m = m @ [?e]"
    by (simp add: addToMapWith_def map_of_None_iff [THEN iffD2] update_fresh)
  have "var ` set ts \<inter> fst ` set (m @ [?e]) = {}"
    using Cons.prems by auto
  with Cons.IH [of "m @ [?e]"] Cons.prems step show ?case by simp
qed

lemma values_fold_addToMapWith:
  "distinct (map var ts) \<Longrightarrow>
   map snd (fold (addToMapWith plusOp cloneOp) ts []) = map (\<lambda>t. t\<lparr>coeff := cloneOp (coeff t)\<rparr>) ts"
  by (simp add: fold_addToMapWith_fresh comp_def)

lemma simplified_keys_distinct:
  "distinct (map var (terms (simplifyPolynomialWith plusOp cloneOp keepOp p)))"
proof -
  have "keyed (fold (addToMapWith plusOp cloneOp) (terms p) [])"
    by (rule keyed_foldWith) (simp add: keyed_def)
  then have "distinct (map var (map snd (fold (addToMapWith plusOp cloneOp) (terms p) [])))"
    by (rule keyed_values)
  then show ?thesis
    by (simp add: simplifyPolynomialWith_def distinct_map_sort_key distinct_map_filter)
qed

text \<open>
  The second pass merges nothing: it clones every term of the first result, filters and
  sorts.
\<close>

lemma second_pass:
  "simplifyPolynomialWith plusOp cloneOp keepOp (simplifyPolynomialWith plusOp cloneOp keepOp p) =
   \<lparr>terms = sort_key (\<lambda>term. - degree term)
             (filter (\<lambda>term. keepOp (coeff term))
                (map (\<lambda>t. t\<lparr>coeff := cloneOp (coeff t)\<rparr>)
                   (terms (simplifyPolynomialWith plusOp cloneOp keepOp p))))\<rparr>"
  using values_fold_addToMapWith [OF simplified_keys_distinct, of plusOp cloneOp plusOp cloneOp keepOp p]
  by (simp add: simplifyPolynomialWith_def)

text \<open>When the clone changes no coefficient of the first result, the second pass changes nothing.\<close>

lemma simplifyPolynomialWith_idempotent:
  assumes "list_all (\<lambda>t. cloneOp (coeff t) = coeff t)
             (terms (simplifyPolynomialWith plusOp cloneOp keepOp p))"
  shows "simplifyPolynomialWith plusOp cloneOp keepOp
           (simplifyPolynomialWith plusOp cloneOp keepOp p) =
         simplifyPolynomialWith plusOp cloneOp keepOp p"
proof -
  define S where "S = terms (simplifyPolynomialWith plusOp cloneOp keepOp p)"
  define f where "f = (\<lambda>t::'a Term. - degree t)"
  define K where "K = (\<lambda>t::'a Term. keepOp (coeff t))"
  have S: "S = sort_key f (filter K (map snd (fold (addToMapWith plusOp cloneOp) (terms p) [])))"
    by (simp add: S_def simplifyPolynomialWith_def f_def K_def)
  have 1: "map (\<lambda>t. t\<lparr>coeff := cloneOp (coeff t)\<rparr>) S = S"
    using assms unfolding S_def [symmetric] by (induction S) auto
  have 2: "filter K S = S" by (simp add: S)
  have "sorted (map f S)" by (simp add: S)
  then have 3: "sort_key f S = S" by (rule sort_key_id_if_sorted)
  have "simplifyPolynomialWith plusOp cloneOp keepOp (simplifyPolynomialWith plusOp cloneOp keepOp p)
        = \<lparr>terms = sort_key f (filter K (map (\<lambda>t. t\<lparr>coeff := cloneOp (coeff t)\<rparr>) S))\<rparr>"
    by (simp add: second_pass S_def f_def K_def)
  also have "\<dots> = \<lparr>terms = S\<rparr>" by (simp add: 1 2 3)
  finally show ?thesis by (simp add: S_def)
qed

text \<open>In exact arithmetic this is every polynomial.\<close>

lemma simplifyPolynomial_idempotent_exact:
  "simplifyPolynomial (simplifyPolynomial p) = simplifyPolynomial p"
  by (simp add: simplifyPolynomial_exact simplifyPolynomialWith_idempotent list_all_iff)

lemma jsonNumber_finite: "finiteCoefficient c \<Longrightarrow> jsonNumber c = c"
  by (cases c rule: jsonNumber.cases) (simp_all add: finiteCoefficient_def)

text \<open>
  Claim C5, as the code has it. When every coefficient of \<open>simplifyPolynomial(p)\<close> is a finite
  number, simplifying it again returns the same terms in the same order.
\<close>

theorem simplifyPolynomial_idempotent_finite:
  assumes "list_all (\<lambda>t. finiteCoefficient (coeff t)) (terms (simplifyPolynomial_doubles p))"
  shows "simplifyPolynomial_doubles (simplifyPolynomial_doubles p) = simplifyPolynomial_doubles p"
  unfolding simplifyPolynomial_doubles_def
proof (rule simplifyPolynomialWith_idempotent)
  show "list_all (\<lambda>t. jsonNumber (coeff t) = coeff t)
          (terms (simplifyPolynomialWith plusCoefficient jsonNumber keptCoefficient p))"
    using assms
    by (simp add: simplifyPolynomial_doubles_def list_all_iff jsonNumber_finite)
qed

lemma first_pass_example:
  "simplifyPolynomial_doubles
     \<lparr>terms = [createTerm (Some (Num 3)) [(''x'', 1)], createTerm (Some (Num 5)) [],
               createTerm (Some (Num 2)) [(''x'', 1)], createTerm (Some (Num (- 5))) []]\<rparr> =
   \<lparr>terms = [createTerm (Some (Num 5)) [(''x'', 1)]]\<rparr>"
  by (simp add: simplifyPolynomial_doubles_def simplifyPolynomialWith_def addToMapWith_def
      createTerm_def plusCoefficient_def keptCoefficient_def overflowBound_def epsilonDouble_def
      degree_def entries_def Let_def)

text \<open>\<open>3x + 5 + 2x - 5\<close> simplifies to \<open>5x\<close>, and \<open>5x\<close> to itself.\<close>

theorem simplifyPolynomial_idempotent_finite_witness:
  "simplifyPolynomial_doubles
     \<lparr>terms = [createTerm (Some (Num 3)) [(''x'', 1)], createTerm (Some (Num 5)) [],
               createTerm (Some (Num 2)) [(''x'', 1)], createTerm (Some (Num (- 5))) []]\<rparr> =
   \<lparr>terms = [createTerm (Some (Num 5)) [(''x'', 1)]]\<rparr> \<and>
   simplifyPolynomial_doubles \<lparr>terms = [createTerm (Some (Num 5)) [(''x'', 1)]]\<rparr> =
   \<lparr>terms = [createTerm (Some (Num 5)) [(''x'', 1)]]\<rparr>"
proof -
  let ?p = "\<lparr>terms = [createTerm (Some (Num 3)) [(''x'', 1)], createTerm (Some (Num 5)) [],
               createTerm (Some (Num 2)) [(''x'', 1)], createTerm (Some (Num (- 5))) []]\<rparr>"
  have "list_all (\<lambda>t. finiteCoefficient (coeff t)) (terms (simplifyPolynomial_doubles ?p))"
    by (simp only: first_pass_example) (simp add: finiteCoefficient_def createTerm_def)
  from simplifyPolynomial_idempotent_finite [OF this]
  show ?thesis by (simp only: first_pass_example)
qed

text \<open>
  The claim as the specification words it covers every polynomial. For the finite doubles
  \<open>2^1023 x + 2^1023 x\<close> the first pass returns the term \<open>Infinity x\<close>; the second pass clones its
  coefficient to \<open>null\<close> and the filter drops it.
\<close>

lemma first_pass_overflow:
  "simplifyPolynomial_doubles
     \<lparr>terms = [createTerm (Some (Num (2 ^ 1023))) [(''x'', 1)],
               createTerm (Some (Num (2 ^ 1023))) [(''x'', 1)]]\<rparr> =
   \<lparr>terms = [createTerm (Some PosInfinity) [(''x'', 1)]]\<rparr>"
  by (simp add: simplifyPolynomial_doubles_def simplifyPolynomialWith_def addToMapWith_def
      createTerm_def plusCoefficient_def keptCoefficient_def overflowBound_def Let_def)

lemma second_pass_overflow:
  "simplifyPolynomial_doubles \<lparr>terms = [createTerm (Some PosInfinity) [(''x'', 1)]]\<rparr> =
   \<lparr>terms = []\<rparr>"
  by (simp add: simplifyPolynomial_doubles_def simplifyPolynomialWith_def addToMapWith_def
      createTerm_def keptCoefficient_def epsilonDouble_def Let_def)

theorem simplifyPolynomial_overflow_not_idempotent:
  "simplifyPolynomial_doubles
     (simplifyPolynomial_doubles
        \<lparr>terms = [createTerm (Some (Num (2 ^ 1023))) [(''x'', 1)],
                  createTerm (Some (Num (2 ^ 1023))) [(''x'', 1)]]\<rparr>) \<noteq>
   simplifyPolynomial_doubles
     \<lparr>terms = [createTerm (Some (Num (2 ^ 1023))) [(''x'', 1)],
               createTerm (Some (Num (2 ^ 1023))) [(''x'', 1)]]\<rparr>"
  by (simp only: first_pass_overflow second_pass_overflow) (simp add: createTerm_def)

text \<open>A coefficient that is not finite is always lost in the second pass.\<close>

lemma jsonNumber_not_kept:
  "\<not> finiteCoefficient c \<Longrightarrow> \<not> keptCoefficient (jsonNumber c)"
  by (cases c rule: jsonNumber.cases)
     (simp_all add: finiteCoefficient_def keptCoefficient_def epsilonDouble_def)

lemma second_pass_shorter:
  assumes "\<not> list_all (\<lambda>t. finiteCoefficient (coeff t)) (terms (simplifyPolynomial_doubles p))"
  shows "length (terms (simplifyPolynomial_doubles (simplifyPolynomial_doubles p))) <
         length (terms (simplifyPolynomial_doubles p))"
proof -
  define S where "S = terms (simplifyPolynomial_doubles p)"
  define C where "C = map (\<lambda>t. t\<lparr>coeff := jsonNumber (coeff t)\<rparr>) S"
  from assms obtain t where t: "t \<in> set S" "\<not> finiteCoefficient (coeff t)"
    by (auto simp: S_def list_all_iff)
  then have "t\<lparr>coeff := jsonNumber (coeff t)\<rparr> \<in> set C"
    and "\<not> keptCoefficient (coeff (t\<lparr>coeff := jsonNumber (coeff t)\<rparr>))"
    by (auto simp: C_def jsonNumber_not_kept)
  then have "length (filter (\<lambda>term. keptCoefficient (coeff term)) C) < length C"
    by (rule length_filter_less)
  moreover have "terms (simplifyPolynomial_doubles (simplifyPolynomial_doubles p)) =
      sort_key (\<lambda>term. - degree term) (filter (\<lambda>term. keptCoefficient (coeff term)) C)"
    by (simp add: simplifyPolynomial_doubles_def second_pass C_def S_def)
  ultimately show ?thesis by (simp add: C_def S_def)
qed

lemma simplifyPolynomial_not_idempotent:
  assumes "\<not> list_all (\<lambda>t. finiteCoefficient (coeff t)) (terms (simplifyPolynomial_doubles p))"
  shows "simplifyPolynomial_doubles (simplifyPolynomial_doubles p) \<noteq> simplifyPolynomial_doubles p"
proof
  assume "simplifyPolynomial_doubles (simplifyPolynomial_doubles p) = simplifyPolynomial_doubles p"
  with second_pass_shorter [OF assms] show False by simp
qed

section \<open>The normalization invariant\<close>

lemma copyVars_positive:
  "list_all (\<lambda>(v, n). 0 < n) vs \<Longrightarrow> list_all (\<lambda>(v, n). 0 < n) acc \<Longrightarrow>
   list_all (\<lambda>(v, n). 0 < n) (fold (\<lambda>(v, pow) acc. AList.update v pow acc) vs acc)"
  by (induction vs arbitrary: acc) (auto simp: list_all_update)

lemma addVars_positive:
  "list_all (\<lambda>(v, n). 0 < n) vs \<Longrightarrow> list_all (\<lambda>(v, n). 0 < n) acc \<Longrightarrow>
   list_all (\<lambda>(v, n). (0::int) < n) (addVars vs acc)"
proof (induction vs arbitrary: acc)
  case Nil
  then show ?case by (simp add: addVars_def)
next
  case (Cons p vs)
  obtain v pow where p: "p = (v, pow)" by (cases p)
  with Cons.prems have pow: "0 < pow" by simp
  have "0 < (case map_of acc v of None \<Rightarrow> 0 | Some n \<Rightarrow> n) + pow"
    using pow list_all_map_of [OF Cons.prems(2), of v] by (auto split: option.splits)
  then have "list_all (\<lambda>(v, n). 0 < n)
      (AList.update v ((case map_of acc v of None \<Rightarrow> 0 | Some n \<Rightarrow> n) + pow) acc)"
    using Cons.prems(2) by (intro list_all_update) simp_all
  from Cons.IH [OF _ this] Cons.prems(1) p show ?case by (simp add: addVars_def)
qed

lemma positive_iff:
  "list_all (\<lambda>(v, n). (0::int) < n) vs \<longleftrightarrow>
   list_all (\<lambda>(v, n). n \<noteq> 0) vs \<and> list_all (\<lambda>(v, n). 0 \<le> n) vs"
  by (induction vs) auto

lemma normalized_multiplyTerms:
  assumes "normalized a" "normalized b" "nonnegative a" "nonnegative b"
  shows "normalized (multiplyTerms a b)"
proof -
  have a: "list_all (\<lambda>(v, n). 0 < n) (entries (var a))"
    and b: "list_all (\<lambda>(v, n). 0 < n) (entries (var b))"
    using assms by (simp_all add: positive_iff normalized_def nonnegative_def)
  have "list_all (\<lambda>(v, n). 0 < n) (copyVars (entries (var a)))"
    unfolding copyVars_def using a by (intro copyVars_positive) simp_all
  from addVars_positive [OF b this]
  show ?thesis by (simp add: multiplyTerms_def Let_def normalized_def positive_iff entries_var)
qed

lemma normalized_differentiateTerm:
  assumes "normalized t"
  shows "normalized (differentiateTerm t v)"
proof (cases "map_of (entries (var t)) v")
  case None
  then show ?thesis by (simp add: differentiateTerm_def normalized_def createTerm_def entries_def)
next
  case (Some pw)
  show ?thesis
  proof (cases "pw = 1")
    case True
    with Some assms show ?thesis
      by (simp add: differentiateTerm_def normalized_def Let_def list_all_delete entries_var)
  next
    case False
    with Some assms show ?thesis
      by (simp add: differentiateTerm_def normalized_def entries_def list_all_update)
  qed
qed

lemma normalized_integrateTerm:
  assumes "normalized t" "integrateTerm t v = Inr t'"
  shows "normalized t'"
  using assms
  by (auto simp: integrateTerm_def Let_def normalized_def entries_def split: if_splits
      intro!: list_all_update)

lemma list_all_map_entry_var:
  "list_all (\<lambda>(k, u). Q (var u)) m \<Longrightarrow>
   list_all (\<lambda>(k, u). Q (var u)) (AList.map_entry k' (\<lambda>u. u\<lparr>coeff := coeff u + c\<rparr>) m)"
  by (induction m) auto

lemma addToMap_preserves:
  "list_all (\<lambda>(k, u). Q (var u)) m \<Longrightarrow> Q (var t) \<Longrightarrow>
   list_all (\<lambda>(k, u). Q (var u)) (addToMap t m)"
  unfolding addToMap_def Let_def
  by (auto split: option.splits intro: list_all_update list_all_map_entry_var)

lemma fold_addToMap_preserves:
  "list_all (\<lambda>t. Q (var t)) ts \<Longrightarrow> list_all (\<lambda>(k, u). Q (var u)) m \<Longrightarrow>
   list_all (\<lambda>(k, u). Q (var u)) (fold addToMap ts m)"
  by (induction ts arbitrary: m) (simp_all add: addToMap_preserves)

lemma normalized_simplifyPolynomial:
  assumes "list_all normalized (terms p)"
  shows "list_all normalized (terms (simplifyPolynomial p))"
proof -
  define Q where "Q = (\<lambda>vo. list_all (\<lambda>(v, n). n \<noteq> (0::int)) (entries vo))"
  have n: "normalized = (\<lambda>t::'a Term. Q (var t))"
    by (simp add: fun_eq_iff normalized_def Q_def)
  have "list_all (\<lambda>(k, u). Q (var u)) (fold addToMap (terms p) [])"
    using assms by (intro fold_addToMap_preserves) (simp_all add: n)
  then have "list_all (\<lambda>u. Q (var u)) (map snd (fold addToMap (terms p) []))"
    by (simp add: list_all_iff split_beta)
  then show ?thesis
    by (auto simp: simplifyPolynomial_def n list_all_iff)
qed

text \<open>
  Claim C4, as the code has it. The operations keep the invariant rather than establish it.
  \<open>createTerm\<close> copies the given exponents, so its term is normalized exactly when no given
  exponent is \<open>0\<close>. The product of two normalized terms with exponents that are not negative
  is normalized; the derivative of a normalized term is normalized; a term that
  \<open>integrateTerm\<close> returns for a normalized term is normalized; \<open>simplifyPolynomial\<close> returns
  normalized terms for normalized terms.
\<close>

theorem operations_preserve_normalization:
  "(normalized (createTerm c vs) \<longleftrightarrow> list_all (\<lambda>(v, n). n \<noteq> 0) vs) \<and>
   (normalized a \<and> normalized b \<and> nonnegative a \<and> nonnegative b \<longrightarrow>
      normalized (multiplyTerms a b)) \<and>
   (normalized t \<longrightarrow> normalized (differentiateTerm t v)) \<and>
   (normalized t \<and> integrateTerm t v = Inr t' \<longrightarrow> normalized t') \<and>
   (list_all normalized (terms p) \<longrightarrow> list_all normalized (terms (simplifyPolynomial p)))"
  using normalized_multiplyTerms [of a b] normalized_differentiateTerm [of t v]
    normalized_integrateTerm [of t v t'] normalized_simplifyPolynomial [of p]
  by (simp add: normalized_def createTerm_def entries_var)

text \<open>One term or polynomial for each operation.\<close>

theorem operations_preserve_normalization_witness:
  "normalized (createTerm (3::rat) [(''x'', 2)]) \<and>
   normalized (multiplyTerms (createTerm (5::rat) [(''x'', 1)])
                             (createTerm 4 [(''y'', 1), (''x'', 2)])) \<and>
   normalized (differentiateTerm (createTerm (5::rat) [(''x'', 1)]) ''x'') \<and>
   normalized \<lparr>coeff = 5 / 2 :: rat, var = Some [(''x'', 2)]\<rparr> \<and>
   list_all normalized
     (terms (simplifyPolynomial
        \<lparr>terms = [createTerm (3::rat) [(''x'', 1)], createTerm 2 [(''x'', 1)]]\<rparr>))"
proof -
  have i: "integrateTerm (createTerm (5::rat) [(''x'', 1)]) ''x'' =
           Inr \<lparr>coeff = 5 / 2, var = Some [(''x'', 2)]\<rparr>"
    by (simp add: integrateTerm_def powerOf_def createTerm_def entries_def)
  have n: "normalized (createTerm (3::rat) [(''x'', 2)])"
          "normalized (createTerm (5::rat) [(''x'', 1)])"
          "normalized (createTerm (4::rat) [(''y'', 1), (''x'', 2)])"
          "normalized (createTerm (3::rat) [(''x'', 1)])"
          "normalized (createTerm (2::rat) [(''x'', 1)])"
    by (simp_all add: operations_preserve_normalization [THEN conjunct1])
  have nn: "nonnegative (createTerm (5::rat) [(''x'', 1)])"
           "nonnegative (createTerm (4::rat) [(''y'', 1), (''x'', 2)])"
    by (simp_all add: nonnegative_def createTerm_def entries_def)
  from operations_preserve_normalization
    [of "3::rat" "[(''x'', 2)]"
        "createTerm (5::rat) [(''x'', 1)]" "createTerm (4::rat) [(''y'', 1), (''x'', 2)]"
        "createTerm (5::rat) [(''x'', 1)]" "''x''" "\<lparr>coeff = 5 / 2 :: rat, var = Some [(''x'', 2)]\<rparr>"
        "\<lparr>terms = [createTerm (3::rat) [(''x'', 1)], createTerm 2 [(''x'', 1)]]\<rparr>"]
  show ?thesis using n nn i by simp
qed

text \<open>
  The claim as the specification words it covers every term \<open>createTerm\<close> constructs.
  \<open>createTerm(1, {x: 0})\<close> keeps the entry of \<open>x\<close> with the exponent \<open>0\<close>.
\<close>

theorem createTerm_keeps_zero_exponent:
  "\<not> normalized (createTerm (1::rat) [(''x'', 0)])"
  by (simp add: normalized_def createTerm_def entries_def)

section \<open>Simpson's rule\<close>

lemma int_interval_first: "i \<le> n \<Longrightarrow> {i..n} = insert i {i + 1..n}" for i n :: int
  by auto

lemma sum_int_interval_first:
  fixes g :: "int \<Rightarrow> 'a::comm_monoid_add"
  assumes "i \<le> n"
  shows "(\<Sum>j = i..n. g j) = g i + (\<Sum>j = i + 1..n. g j)"
  by (simp add: int_interval_first [OF assms])

text \<open>
  The loop from the counter \<open>i\<close> adds the weighted samples \<open>i, \<dots>, n\<close> to the running sum, when
  each of them evaluates to a number.
\<close>

lemma simpsonLoop_sum:
  fixes f :: "int \<Rightarrow> 'a::linordered_field"
  assumes "\<And>j. i \<le> j \<Longrightarrow> j \<le> n \<Longrightarrow>
             evaluateFraction fraction [v \<mapsto> Finite (lower + of_int j * h)] = Inr (Finite (f j))"
  shows "simpsonLoop fraction lower (Finite h) v n i (Finite s) =
         Inr (Finite (s + (\<Sum>j = i..n. simpsonWeight n j * f j)))"
  using assms
proof (induction "nat (n + 1 - i)" arbitrary: i s)
  case 0
  then have "\<not> i \<le> n" by simp
  then show ?case by (simp add: simpsonLoop.simps)
next
  case (Suc k)
  then have le: "i \<le> n" by simp
  have ev: "evaluateFraction fraction [v \<mapsto> Finite (lower + of_int i * h)] = Inr (Finite (f i))"
    using Suc.prems le by simp
  have k: "k = nat (n + 1 - (i + 1))" using Suc.hyps(2) by simp
  have step: "simpsonLoop fraction lower (Finite h) v n i (Finite s) =
        simpsonLoop fraction lower (Finite h) v n (i + 1) (Finite (s + simpsonWeight n i * f i))"
    using le ev by (subst simpsonLoop.simps) (simp add: simpsonWeight_def odd_iff_mod_2_eq_one)
  have "simpsonLoop fraction lower (Finite h) v n (i + 1) (Finite (s + simpsonWeight n i * f i)) =
        Inr (Finite (s + simpsonWeight n i * f i + (\<Sum>j = i + 1..n. simpsonWeight n j * f j)))"
    using Suc.prems by (intro Suc.hyps(1) [OF k]) simp_all
  with step show ?case by (simp add: sum_int_interval_first [OF le] add.assoc)
qed

text \<open>
  Claim C8. With \<open>steps\<close> the step count made even and \<open>h = (upper - lower)/steps\<close>,
  \<open>numericalIntegrateFraction\<close> returns \<open>h/3\<close> times the sum of the weighted samples of the
  fraction at \<open>{v: lower + i h}\<close>, \<open>i = 0, \<dots>, steps\<close>, as the fraction of one constant term over
  the scalar \<open>1\<close>. The samples are the values \<open>evaluateFraction\<close> returns; the step count is not
  \<open>0\<close>, where \<open>h\<close> is no number.
\<close>

theorem numericalIntegrateFraction_simpson:
  fixes f :: "int \<Rightarrow> 'a::linordered_field"
  assumes "steps = evenSteps numSteps" and "steps \<noteq> 0"
    and "h = (upper - lower) / of_int steps"
    and "\<forall>i\<in>{0..steps}.
           evaluateFraction fraction [v \<mapsto> Finite (lower + of_int i * h)] = Inr (Finite (f i))"
  shows "even steps \<and>
         numericalIntegrateFraction fraction lower upper v numSteps =
           Inr (Finite \<lparr>numi = \<lparr>terms = [\<lparr>coeff = h / 3 * (\<Sum>i = 0..steps. simpsonWeight steps i * f i),
                                            var = None\<rparr>]\<rparr>,
                         deno = Scalar 1\<rparr>)"
proof -
  have s: "steps = (if numSteps mod 2 \<noteq> 0 then numSteps + 1 else numSteps)"
    using assms(1) by (simp add: evenSteps_def even_iff_mod_2_eq_zero)
  have e: "even steps" using assms(1) by (simp add: evenSteps_def)
  have hh: "js_div (Finite (upper - lower)) (Finite (of_int steps)) = Finite h"
    using assms(2,3) by simp
  have "simpsonLoop fraction lower (Finite h) v steps 0 (Finite 0) =
        Inr (Finite (0 + (\<Sum>j = 0..steps. simpsonWeight steps j * f j)))"
    using assms(4) by (intro simpsonLoop_sum) simp
  then show ?thesis
    using e hh s [symmetric] by (simp add: numericalIntegrateFraction_def Let_def createTerm_def)
qed

lemma simpson_sum_cubic_example:
  "(\<Sum>i = 0..(4::int). simpsonWeight 4 i * (3 * (of_int i / 2) ^ 2 :: rat)) = 48"
  by code_simp

text \<open>Three steps become four, and the rule integrates \<open>3x\<^sup>2\<close> over \<open>[0, 2]\<close> to \<open>8\<close>.\<close>

theorem numericalIntegrateFraction_simpson_witness:
  "evenSteps 3 = 4 \<and>
   numericalIntegrateFraction
     \<lparr>numi = \<lparr>terms = [createTerm (3::rat) [(''x'', 2)]]\<rparr>, deno = Scalar 1\<rparr> 0 2 ''x'' 3 =
   Inr (Finite \<lparr>numi = \<lparr>terms = [\<lparr>coeff = 8, var = None\<rparr>]\<rparr>, deno = Scalar 1\<rparr>)"
proof -
  have steps: "(4::int) = evenSteps 3" "(4::int) \<noteq> 0" by (simp_all add: evenSteps_def)
  have h: "(1 / 2 :: rat) = (2 - 0) / of_int 4" by simp
  have samples: "\<forall>i\<in>{0..4}.
      evaluateFraction \<lparr>numi = \<lparr>terms = [createTerm (3::rat) [(''x'', 2)]]\<rparr>, deno = Scalar 1\<rparr>
        [''x'' \<mapsto> Finite (0 + of_int i * (1 / 2))] =
      Inr (Finite (3 * (of_int i * (1 / 2)) ^ 2))"
    by (simp add: evaluateFraction_def evaluatePolynomial_def evaluateTerm_def createTerm_def
        entries_def)
  from numericalIntegrateFraction_simpson [OF steps h samples]
  show ?thesis using steps(1) by (simp add: simpson_sum_cubic_example)
qed

section \<open>Multiplication and evaluation\<close>

lemma boundE:
  assumes "bound values (v, n)"
  obtains x where "values v = Some (Finite x)" "valueOf values v = x" "x \<noteq> 0 \<or> 0 \<le> n"
  using assms by (auto simp: bound_def valueOf_def split: option.splits number.splits)

lemma evaluateVars_value:
  "list_all (bound values) vs \<Longrightarrow>
   evaluateVars (Finite r) vs values = Inr (Finite (r * monomialValue values vs))"
proof (induction vs arbitrary: r)
  case Nil
  then show ?case by (simp add: monomialValue_def)
next
  case (Cons p vs)
  obtain v n where p: "p = (v, n)" by (cases p)
  with Cons.prems have "bound values (v, n)" by simp
  then obtain x where x: "values v = Some (Finite x)" "valueOf values v = x" "x \<noteq> 0 \<or> 0 \<le> n"
    by (rule boundE)
  have "evaluateVars (Finite r) (p # vs) values = evaluateVars (Finite (r * x powi n)) vs values"
    using x p by auto
  also have "\<dots> = Inr (Finite (r * x powi n * monomialValue values vs))"
    using Cons.prems by (intro Cons.IH) simp
  finally show ?case using x p by (simp add: monomialValue_def mult.assoc)
qed

lemma evaluateTerm_value:
  "evaluable values t \<Longrightarrow> evaluateTerm t values = Inr (Finite (termValue values t))"
  by (simp add: evaluable_def evaluateTerm_def termValue_def evaluateVars_value)

lemma powi_add_bound:
  fixes x :: "'a::linordered_field"
  assumes "x \<noteq> 0 \<or> 0 \<le> n" "x \<noteq> 0 \<or> 0 \<le> m"
  shows "x powi (n + m) = x powi n * x powi m"
proof (cases "x = 0 \<and> n + m = 0")
  case True
  with assms have "n = 0" "m = 0" by auto
  then show ?thesis by simp
next
  case False
  then show ?thesis by (intro power_int_add) auto
qed

lemma addVar_value:
  assumes "distinct (map fst acc)" "list_all (bound values) acc" "bound values (v, pow)"
  shows "monomialValue values
           (AList.update v ((case map_of acc v of None \<Rightarrow> 0 | Some n \<Rightarrow> n) + pow) acc) =
         monomialValue values acc * valueOf values v powi pow \<and>
         list_all (bound values)
           (AList.update v ((case map_of acc v of None \<Rightarrow> 0 | Some n \<Rightarrow> n) + pow) acc)"
  using assms
proof (induction acc)
  case Nil
  then show ?case by (simp add: monomialValue_def)
next
  case (Cons p acc)
  obtain w n where p: "p = (w, n)" by (cases p)
  show ?case
  proof (cases "w = v")
    case True
    from Cons.prems(3) obtain x where
      x: "values v = Some (Finite x)" "valueOf values v = x" "x \<noteq> 0 \<or> 0 \<le> pow"
      by (rule boundE)
    from Cons.prems(2) p True have "bound values (v, n)" by simp
    then have n: "x \<noteq> 0 \<or> 0 \<le> n" using x by (auto elim: boundE)
    have "x \<noteq> 0 \<or> 0 \<le> n + pow" using n x(3) by auto
    then have "bound values (v, n + pow)" using x by (simp add: bound_def)
    then show ?thesis
      using p True Cons.prems x powi_add_bound [OF n x(3)]
      by (simp add: monomialValue_def)
  next
    case False
    with Cons.IH Cons.prems p show ?thesis by (simp add: monomialValue_def)
  qed
qed

lemma addVars_value:
  "list_all (bound values) vs \<Longrightarrow> distinct (map fst acc) \<Longrightarrow> list_all (bound values) acc \<Longrightarrow>
   monomialValue values (addVars vs acc) = monomialValue values acc * monomialValue values vs \<and>
   list_all (bound values) (addVars vs acc) \<and> distinct (map fst (addVars vs acc))"
proof (induction vs arbitrary: acc)
  case Nil
  then show ?case by (simp add: addVars_def monomialValue_def)
next
  case (Cons p vs)
  obtain v pow where p: "p = (v, pow)" by (cases p)
  define acc' where
    "acc' = AList.update v ((case map_of acc v of None \<Rightarrow> 0 | Some n \<Rightarrow> n) + pow) acc"
  from Cons.prems p have b: "bound values (v, pow)" by simp
  from addVar_value [OF Cons.prems(2,3) b]
  have v: "monomialValue values acc' = monomialValue values acc * valueOf values v powi pow"
    and l: "list_all (bound values) acc'" by (simp_all add: acc'_def)
  have d: "distinct (map fst acc')" using Cons.prems(2) by (simp add: acc'_def distinct_update)
  have "addVars (p # vs) acc = addVars vs acc'" by (simp add: addVars_def p acc'_def)
  moreover from Cons.IH [OF _ d l] Cons.prems(1)
  have "monomialValue values (addVars vs acc') = monomialValue values acc' * monomialValue values vs"
    "list_all (bound values) (addVars vs acc')" "distinct (map fst (addVars vs acc'))"
    by simp_all
  ultimately show ?case using v p by (simp add: monomialValue_def mult.assoc)
qed

lemma fold_update_fresh:
  "distinct (map fst (acc @ vs)) \<Longrightarrow>
   fold (\<lambda>(v, pow) acc. AList.update v pow acc) vs acc = acc @ vs"
proof (induction vs arbitrary: acc)
  case Nil
  then show ?case by simp
next
  case (Cons p vs)
  obtain v pow where p: "p = (v, pow)" by (cases p)
  with Cons.prems have "v \<notin> fst ` set acc" by auto
  then have "AList.update v pow acc = acc @ [(v, pow)]" by (rule update_fresh)
  with Cons.IH [of "acc @ [(v, pow)]"] Cons.prems p show ?case by simp
qed

lemma copyVars_distinct: "distinct (map fst vs) \<Longrightarrow> copyVars vs = vs"
  using fold_update_fresh [of "[]" vs] by (simp add: copyVars_def)

lemma evaluateTerm_multiplyTerms:
  assumes "evaluable values a" "evaluable values b"
  shows "evaluateTerm (multiplyTerms a b) values =
         Inr (Finite (termValue values a * termValue values b))"
proof -
  from assms have a: "distinct (map fst (entries (var a)))" "list_all (bound values) (entries (var a))"
    and b: "list_all (bound values) (entries (var b))"
    by (simp_all add: evaluable_def)
  define vs where "vs = addVars (entries (var b)) (copyVars (entries (var a)))"
  from addVars_value [OF b, of "entries (var a)"] a
  have v: "monomialValue values vs =
           monomialValue values (entries (var a)) * monomialValue values (entries (var b))"
    and l: "list_all (bound values) vs"
    by (simp_all add: vs_def copyVars_distinct)
  have "evaluateTerm (multiplyTerms a b) values =
        evaluateVars (Finite (coeff a * coeff b)) vs values"
    by (simp add: evaluateTerm_def multiplyTerms_def Let_def vs_def entries_def)
  also have "\<dots> = Inr (Finite (coeff a * coeff b * monomialValue values vs))"
    using l by (rule evaluateVars_value)
  finally show ?thesis by (simp add: v termValue_def)
qed

lemma evaluateTerms_values:
  "list_all (evaluable values) ts \<Longrightarrow>
   evaluateTerms (Finite s) ts values = Inr (Finite (s + sum_list (map (termValue values) ts)))"
  by (induction ts arbitrary: s) (simp_all add: evaluateTerm_value add.assoc)

lemma evaluateTerms_row:
  "evaluable values a \<Longrightarrow> list_all (evaluable values) q \<Longrightarrow>
   evaluateTerms (Finite s) (map (\<lambda>b. multiplyTerms a b) q) values =
   Inr (Finite (s + termValue values a * sum_list (map (termValue values) q)))"
  by (induction q arbitrary: s)
     (simp_all add: evaluateTerm_multiplyTerms algebra_simps)

lemma evaluateTerms_append:
  "evaluateTerms acc (xs @ ys) values =
   (case evaluateTerms acc xs values of Inl e \<Rightarrow> Inl e | Inr acc' \<Rightarrow> evaluateTerms acc' ys values)"
  by (induction xs arbitrary: acc) (auto split: sum.splits)

lemma evaluateTerms_product:
  "list_all (evaluable values) p \<Longrightarrow> list_all (evaluable values) q \<Longrightarrow>
   evaluateTerms (Finite s) (concat (map (\<lambda>a. map (\<lambda>b. multiplyTerms a b) q) p)) values =
   Inr (Finite (s + sum_list (map (termValue values) p) * sum_list (map (termValue values) q)))"
  by (induction p arbitrary: s)
     (simp_all add: evaluateTerms_append evaluateTerms_row algebra_simps)

text \<open>
  Claim C10. For polynomials \<open>p\<close> and \<open>q\<close> and a binding that supplies a number for every
  variable occurring in them, \<open>p\<close>, \<open>q\<close> and \<open>multiplyPolynomials(p, q)\<close> evaluate to numbers, and
  the value of the product is the product of the values, in every ordered field of exact
  arithmetic, the reals among them.
\<close>

theorem evaluatePolynomial_multiplyPolynomials:
  assumes "list_all (evaluable values) (terms p)" "list_all (evaluable values) (terms q)"
  shows "\<exists>x y. evaluatePolynomial p values = Inr (Finite x) \<and>
               evaluatePolynomial q values = Inr (Finite y) \<and>
               evaluatePolynomial (multiplyPolynomials p q) values = Inr (Finite (x * y))"
  using assms
  by (simp add: evaluatePolynomial_def multiplyPolynomials_def evaluateTerms_values
      evaluateTerms_product)

text \<open>\<open>(x + 1)(x - 1)\<close> at \<open>x = 3\<close> over the reals: \<open>4\<close>, \<open>2\<close> and \<open>8\<close>.\<close>

theorem evaluatePolynomial_multiplyPolynomials_witness:
  "evaluatePolynomial \<lparr>terms = [createTerm (1::real) [(''x'', 1)], createTerm 1 []]\<rparr>
     [''x'' \<mapsto> Finite 3] = Inr (Finite 4) \<and>
   evaluatePolynomial \<lparr>terms = [createTerm (1::real) [(''x'', 1)], createTerm (- 1) []]\<rparr>
     [''x'' \<mapsto> Finite 3] = Inr (Finite 2) \<and>
   evaluatePolynomial
     (multiplyPolynomials \<lparr>terms = [createTerm (1::real) [(''x'', 1)], createTerm 1 []]\<rparr>
                          \<lparr>terms = [createTerm (1::real) [(''x'', 1)], createTerm (- 1) []]\<rparr>)
     [''x'' \<mapsto> Finite 3] = Inr (Finite (4 * 2))"
proof -
  let ?p = "\<lparr>terms = [createTerm (1::real) [(''x'', 1)], createTerm 1 []]\<rparr>"
  let ?q = "\<lparr>terms = [createTerm (1::real) [(''x'', 1)], createTerm (- 1) []]\<rparr>"
  let ?vals = "[''x'' \<mapsto> Finite (3::real)]"
  have p: "evaluatePolynomial ?p ?vals = Inr (Finite 4)"
    and q: "evaluatePolynomial ?q ?vals = Inr (Finite 2)"
    by (simp_all add: evaluatePolynomial_def evaluateTerm_def createTerm_def entries_def)
  have "list_all (evaluable ?vals) (terms ?p)" "list_all (evaluable ?vals) (terms ?q)"
    by (simp_all add: evaluable_def bound_def createTerm_def entries_def)
  from evaluatePolynomial_multiplyPolynomials [OF this] p q
  show ?thesis by auto
qed

end
